theory Spec2Isabelle
  imports Complex_Main "HOL-Library.Word"
begin

unbundle bit_operations_syntax

section \<open>Errors and results\<close>

text \<open>
  Every exception the Python sources can raise is a value of \<open>error\<close>; a computation
  that may raise returns \<open>error + 'a\<close>, with \<open>Inl\<close> for the exception. The generic
  \<open>Exception('unsupported MESH format version: ...')\<close> of the decoders is
  \<open>UnsupportedVersion ''MESH'' ver\<close>, \<open>Exception('unknown vmap type: ...')\<close> is
  \<open>UnknownVmapType\<close>, and \<open>Exception('oops: %i %s' ...)\<close> of the encoder is \<open>Oops\<close>.
\<close>

datatype error =
    TruncatedData
  | MalformedChunk
  | UnexpectedChunk nat nat
  | StopIteration
  | IndexError
  | KeyError
  | NameError
  | AttributeError
  | ZeroDivisionError
  | LoadError string
  | UnsupportedVersion string nat
  | UnknownVmapType nat
  | Oops nat "nat list"

definition bindE :: "error + 'a \<Rightarrow> ('a \<Rightarrow> error + 'b) \<Rightarrow> error + 'b" where
  "bindE m f = (case m of Inl e \<Rightarrow> Inl e | Inr x \<Rightarrow> f x)"

text \<open>What the sources print on the console.\<close>

datatype console =
    Warning_vwmx nat
  | Warning_unknown_chunk nat string
  | Report_warning string string string

section \<open>OGF encoder (\<open>fmt_ogf_exp.py\<close>)\<close>

text \<open>
  Python floats are modelled by \<open>real\<close>: the encoder compares them, divides them and
  uses them as dictionary keys, and the model does the same in exact arithmetic (no
  rounding, no NaN). A division by zero raises, as in Python.

  A weight mapping (\<open>BMDeformVert\<close>, or the \<open>dict\<close> returned by \<open>max_two\<close>) is an
  association list in iteration order, with distinct keys; iterating \<open>dic.keys()\<close> and
  reading \<open>dic[k]\<close> walks the pairs of the list.
\<close>

type_synonym vec3 = "real \<times> real \<times> real"
type_synonym vec2 = "real \<times> real"
type_synonym weights = "(nat \<times> real) list"

definition dic_get :: "weights \<Rightarrow> nat option \<Rightarrow> error + real" where
  "dic_get dic k =
     (case k of
        None \<Rightarrow> Inl KeyError
      | Some a \<Rightarrow> (case map_of dic a of None \<Rightarrow> Inl KeyError | Some v \<Rightarrow> Inr v))"

subsection \<open>\<open>max_two\<close>\<close>

fun max_two_loop0 :: "(nat \<times> real) list \<Rightarrow> nat option \<times> real \<Rightarrow> nat option \<times> real" where
  "max_two_loop0 [] (k0, mx) = (k0, mx)"
| "max_two_loop0 ((k, v) # kvs) (k0, mx) =
     (if v > mx then max_two_loop0 kvs (Some k, v) else max_two_loop0 kvs (k0, mx))"

fun max_two_loop1 ::
  "nat option \<Rightarrow> (nat \<times> real) list \<Rightarrow> nat option \<times> real \<Rightarrow> nat option \<times> real" where
  "max_two_loop1 k0 [] (k1, mx) = (k1, mx)"
| "max_two_loop1 k0 ((k, v) # kvs) (k1, mx) =
     (if v > mx \<and> Some k \<noteq> k0 then max_two_loop1 k0 kvs (Some k, v)
      else max_two_loop1 k0 kvs (k1, mx))"

definition max_two :: "weights \<Rightarrow> error + weights" where
  "max_two dic =
     (let k0 = fst (max_two_loop0 dic (None, - 1));
          k1 = fst (max_two_loop1 k0 dic (None, - 1))
      in bindE (dic_get dic k0) (\<lambda>v0.
         bindE (dic_get dic k1) (\<lambda>v1.
           Inr (if k0 = k1 then [(the k1, v1)] else [(the k0, v0), (the k1, v1)]))))"

subsection \<open>Vertex deduplication\<close>

text \<open>
  A face corner of the triangulated \<open>bmesh\<close> (\<open>l\<close>) and the loop of the mesh copy that
  carries its normal and tangent frame (\<open>dl\<close>). \<open>normalized\<close> is the host's vector
  normalisation.
\<close>

record bmloop =
  vert_index :: nat
  vert_co :: vec3
  uv :: vec2

record meshloop =
  normal :: vec3
  tangent :: vec3
  bitangent :: vec3

record bmface =
  index :: nat
  loops :: "bmloop list"

type_synonym vtx = "nat \<times> vec3 \<times> vec3 \<times> vec3 \<times> vec3 \<times> vec2"

definition normalized :: "vec3 \<Rightarrow> vec3" where
  "normalized v =
     (case v of (x, y, z) \<Rightarrow>
        let n = sqrt (x * x + y * y + z * z)
        in if n = 0 then (0, 0, 0) else (x / n, y / n, z / n))"

definition make_vtx :: "bmloop \<Rightarrow> meshloop \<Rightarrow> vtx" where
  "make_vtx l dl =
     (vert_index l, vert_co l, normal dl, tangent dl, normalized (bitangent dl),
      (fst (uv l), 1 - snd (uv l)))"

text \<open>The state of the loop: the list \<open>vertices\<close> and the dictionary \<open>vmap\<close>.\<close>

type_synonym dedup = "vtx list \<times> (vtx \<rightharpoonup> nat)"

fun loops_loop ::
  "meshloop list \<Rightarrow> nat \<Rightarrow> nat \<Rightarrow> bmloop list \<Rightarrow> dedup \<Rightarrow> nat list \<Rightarrow>
   error + (dedup \<times> nat list)" where
  "loops_loop dls fi li [] st ii = Inr (st, ii)"
| "loops_loop dls fi li (l # ls) (vertices, vmap) ii =
     (if fi * 3 + li < length dls then
        (let dl = dls ! (fi * 3 + li);
             vtx = make_vtx l dl
         in case vmap vtx of
              None \<Rightarrow>
                loops_loop dls fi (Suc li) ls
                  (vertices @ [vtx], vmap(vtx \<mapsto> length vertices)) (ii @ [length vertices])
            | Some vi \<Rightarrow> loops_loop dls fi (Suc li) ls (vertices, vmap) (ii @ [vi]))
      else Inl IndexError)"

fun faces_loop ::
  "meshloop list \<Rightarrow> bmface list \<Rightarrow> dedup \<Rightarrow> nat list list \<Rightarrow>
   error + (dedup \<times> nat list list)" where
  "faces_loop dls [] st indices = Inr (st, indices)"
| "faces_loop dls (f # fs) st indices =
     bindE (loops_loop dls (index f) 0 (loops f) st [])
       (\<lambda>(st', ii). faces_loop dls fs st' (indices @ [ii]))"

definition dedup_vertices :: "meshloop list \<Rightarrow> bmface list \<Rightarrow> error + (vtx list \<times> nat list list)" where
  "dedup_vertices dls faces =
     bindE (faces_loop dls faces ([], Map.empty) [])
       (\<lambda>((vertices, vmap), indices). Inr (vertices, indices))"

subsection \<open>Weight packing\<close>

text \<open>
  Modelled from the spec: \<open>PackedWriter\<close> (\<open>xray_io\<close> is not among the sources). The
  writer is the sequence of typed fields put so far; \<open>putf('H', x)\<close> appends \<open>U16 x\<close>,
  \<open>putf('I', x)\<close> appends \<open>U32 x\<close> and \<open>putf('f', x)\<close> appends \<open>F32 x\<close>.
\<close>

datatype field = U16 nat | U32 nat | F32 real

definition putf_fff :: "vec3 \<Rightarrow> field list" where
  "putf_fff v = (case v of (x, y, z) \<Rightarrow> [F32 x, F32 y, F32 z])"

definition putf_ff :: "vec2 \<Rightarrow> field list" where
  "putf_ff v = (case v of (x, y) \<Rightarrow> [F32 x, F32 y])"

fun vwmx_loop :: "weights list \<Rightarrow> nat \<Rightarrow> nat" where
  "vwmx_loop [] vwmx = vwmx"
| "vwmx_loop (vw # vs) vwmx =
     (let vwc = length vw in if vwc > vwmx then vwmx_loop vs vwc else vwmx_loop vs vwmx)"

text \<open>\<open>bm.verts[v[0]][bml_vw]\<close>: the weights of the source vertex of an output vertex.\<close>

definition vert_weights :: "weights list \<Rightarrow> nat \<Rightarrow> error + weights" where
  "vert_weights verts i = (if i < length verts then Inr (verts ! i) else Inl IndexError)"

definition pack_vertex1 :: "weights list \<Rightarrow> vtx \<Rightarrow> error + field list" where
  "pack_vertex1 verts v =
     (case v of (vi, co, no, ta, bi, tx) \<Rightarrow>
        bindE (vert_weights verts vi) (\<lambda>vw.
          case vw of
            [] \<Rightarrow> Inl IndexError
          | (k, w) # _ \<Rightarrow>
              Inr (putf_fff co @ putf_fff no @ putf_fff ta @ putf_fff bi @ putf_ff tx @ [U32 k])))"

text \<open>
  The loop over the two influences: the state is \<open>(first, w0, bw)\<close> and the writer.
\<close>

fun two_loop ::
  "(nat \<times> real) list \<Rightarrow> (bool \<times> real \<times> real) \<times> field list \<Rightarrow>
   error + ((bool \<times> real \<times> real) \<times> field list)" where
  "two_loop [] st = Inr st"
| "two_loop ((vgi, w) # kvs) ((first, w0, bw), pw) =
     (if first then two_loop kvs ((False, w, bw), pw @ [U16 vgi])
      else if w0 + w = 0 then Inl ZeroDivisionError
      else two_loop kvs ((first, w0, 1 - (w0 / (w0 + w))), pw @ [U16 vgi]))"

fun one_loop :: "(nat \<times> real) list \<Rightarrow> field list \<Rightarrow> field list" where
  "one_loop [] pw = pw"
| "one_loop ((vgi, w) # kvs) pw = one_loop kvs (pw @ [U16 vgi, U16 vgi])"

definition pack_vertex2 :: "weights list \<Rightarrow> vtx \<Rightarrow> error + field list" where
  "pack_vertex2 verts v =
     (case v of (vi, co, no, ta, bi, tx) \<Rightarrow>
        bindE (vert_weights verts vi) (\<lambda>vw.
        bindE (if length vw > 2 then max_two vw else Inr vw) (\<lambda>vw.
        bindE (if length vw = 2 then
                 bindE (two_loop vw ((True, 0, 0), [])) (\<lambda>((first, w0, bw), pw). Inr (bw, pw))
               else if length vw = 1 then Inr (0, one_loop vw [])
               else Inl (Oops (length vw) (map fst vw)))
          (\<lambda>(bw, pw).
             Inr (pw @ putf_fff co @ putf_fff no @ putf_fff ta @ putf_fff bi @ [F32 bw]
                  @ putf_ff tx)))))"

fun pack_loop :: "(vtx \<Rightarrow> error + field list) \<Rightarrow> vtx list \<Rightarrow> field list \<Rightarrow> error + field list" where
  "pack_loop pack [] pw = Inr pw"
| "pack_loop pack (v # vs) pw = bindE (pack v) (\<lambda>fs. pack_loop pack vs (pw @ fs))"

text \<open>
  Chunk \<open>0x3\<close> of \<open>_export_child\<close>: the console output so far, and the writer or the
  exception.
\<close>

definition pack_vertices :: "weights list \<Rightarrow> vtx list \<Rightarrow> console list \<times> (error + field list)" where
  "pack_vertices verts vertices =
     (let vwmx = vwmx_loop verts 0 in
      if vwmx = 1 then ([], pack_loop (pack_vertex1 verts) vertices [])
      else
        (if vwmx \<noteq> 2 then [Warning_vwmx vwmx] else [],
         pack_loop (pack_vertex2 verts) vertices [U32 0x240e3300, U32 (length vertices)]))"

text \<open>Chunk \<open>0x4\<close>: the index buffer.\<close>

fun indices_loop :: "nat list list \<Rightarrow> field list \<Rightarrow> field list" where
  "indices_loop [] pw = pw"
| "indices_loop (f # fs) pw = indices_loop fs (pw @ map U16 f)"

definition pack_indices :: "nat list list \<Rightarrow> field list" where
  "pack_indices indices = indices_loop indices [U32 (3 * length indices)]"



subsection \<open>What deduplication is checked against\<close>

text \<open>
  The key tuples of the corners of a face, in loop order, and the invariant of the loop:
  \<open>vmap\<close> maps exactly the entries of \<open>vertices\<close> to their positions, and \<open>vertices\<close>
  has no duplicates.
\<close>

definition corner_keys :: "meshloop list \<Rightarrow> nat \<Rightarrow> nat \<Rightarrow> bmloop list \<Rightarrow> vtx list" where
  "corner_keys dls fi li ls = map (\<lambda>(n, l). make_vtx l (dls ! (fi * 3 + n))) (enumerate li ls)"

definition face_keys :: "meshloop list \<Rightarrow> bmface \<Rightarrow> vtx list" where
  "face_keys dls f = corner_keys dls (index f) 0 (loops f)"

definition dedup_ok :: "'k list \<times> ('k \<rightharpoonup> nat) \<Rightarrow> bool" where
  "dedup_ok st = (case st of (vertices, vmap) \<Rightarrow>
     distinct vertices \<and> (\<forall>k i. vmap k = Some i \<longleftrightarrow> i < length vertices \<and> vertices ! i = k))"

text \<open>
  The key the deduplication is to use for corner \<open>c\<close> of face \<open>f\<close>, written out from the
  corner's data: the index and position of its source vertex, the normal, tangent and
  normalised bitangent of its loop in the mesh copy, and its texture coordinate with
  \<open>v\<close> flipped.
\<close>

definition corner_tuple :: "meshloop list \<Rightarrow> bmface \<Rightarrow> nat \<Rightarrow> vtx" where
  "corner_tuple dls f c =
     (vert_index (loops f ! c), vert_co (loops f ! c),
      normal (dls ! (index f * 3 + c)), tangent (dls ! (index f * 3 + c)),
      normalized (bitangent (dls ! (index f * 3 + c))),
      (fst (uv (loops f ! c)), 1 - snd (uv (loops f ! c))))"

text \<open>
  A small mesh: two triangles that share the vertices 0 and 2. The two corners at vertex
  0 agree in everything; the two corners at vertex 2 differ in their normal only (a hard
  edge); the vertices 1 and 3 lie at the same position with the same attributes.
\<close>

definition example_loop :: "nat \<Rightarrow> vec3 \<Rightarrow> vec2 \<Rightarrow> bmloop" where
  "example_loop i co tx = \<lparr>vert_index = i, vert_co = co, uv = tx\<rparr>"

definition example_faces :: "bmface list" where
  "example_faces =
     [\<lparr>index = 0, loops = [example_loop 0 (0, 0, 0) (0, 0), example_loop 1 (1, 0, 0) (1, 0),
                            example_loop 2 (1, 1, 0) (1, 1)]\<rparr>,
      \<lparr>index = 1, loops = [example_loop 0 (0, 0, 0) (0, 0), example_loop 2 (1, 1, 0) (1, 1),
                            example_loop 3 (1, 0, 0) (1, 0)]\<rparr>]"

definition example_dl :: "vec3 \<Rightarrow> meshloop" where
  "example_dl n = \<lparr>normal = n, tangent = (1, 0, 0), bitangent = (0, 2, 0)\<rparr>"

definition example_dls :: "meshloop list" where
  "example_dls =
     [example_dl (0, 0, 1), example_dl (0, 0, 1), example_dl (0, 0, 1),
      example_dl (0, 0, 1), example_dl (1, 0, 0), example_dl (0, 0, 1)]"

section \<open>The primitive codec and the chunk framer (\<open>xray_io\<close>)\<close>

text \<open>
  Modelled from the spec: \<open>PackedReader\<close> and \<open>ChunkedReader\<close> (\<open>xray_io\<close> is not among
  the sources). A byte is a \<open>char\<close> and a buffer is a \<open>string\<close>, so that a string read from
  a buffer is the bytes before its terminator. Integers are little-endian; a read past
  the end of the buffer fails with \<open>TruncatedData\<close>. A 32-bit float is carried as its bit
  pattern.
\<close>

type_synonym buffer = string
type_synonym f32 = "32 word"

fun le_nat :: "buffer \<Rightarrow> nat" where
  "le_nat [] = 0"
| "le_nat (b # bs) = of_char b + 256 * le_nat bs"

fun le_bytes :: "nat \<Rightarrow> nat \<Rightarrow> buffer" where
  "le_bytes 0 n = []"
| "le_bytes (Suc k) n = char_of (n mod 256) # le_bytes k (n div 256)"

record packed_reader =
  pr_data :: buffer
  pr_offs :: nat

definition PackedReader :: "buffer \<Rightarrow> packed_reader" where
  "PackedReader d = \<lparr>pr_data = d, pr_offs = 0\<rparr>"

definition get_bytes :: "nat \<Rightarrow> packed_reader \<Rightarrow> error + (buffer \<times> packed_reader)" where
  "get_bytes n pr =
     (if pr_offs pr + n \<le> length (pr_data pr)
      then Inr (take n (drop (pr_offs pr) (pr_data pr)), pr\<lparr>pr_offs := pr_offs pr + n\<rparr>)
      else Inl TruncatedData)"

text \<open>\<open>getf('B')[0]\<close>, \<open>getf('H')[0]\<close>, \<open>getf('I')[0]\<close> and \<open>getf('f')[0]\<close>.\<close>

definition get_uint :: "nat \<Rightarrow> packed_reader \<Rightarrow> error + (nat \<times> packed_reader)" where
  "get_uint n pr = bindE (get_bytes n pr) (\<lambda>(bs, pr). Inr (le_nat bs, pr))"

definition getf_B :: "packed_reader \<Rightarrow> error + (nat \<times> packed_reader)" where
  "getf_B = get_uint 1"

definition getf_H :: "packed_reader \<Rightarrow> error + (nat \<times> packed_reader)" where
  "getf_H = get_uint 2"

definition getf_I :: "packed_reader \<Rightarrow> error + (nat \<times> packed_reader)" where
  "getf_I = get_uint 4"

definition getf_f :: "packed_reader \<Rightarrow> error + (f32 \<times> packed_reader)" where
  "getf_f pr = bindE (get_uint 4 pr) (\<lambda>(n, pr). Inr (of_nat n, pr))"

text \<open>
  A format of \<open>n\<close> equal fields, such as \<open>getf('fff')\<close> or \<open>getf(str(n) + 'I')\<close>: the
  whole format is read at once, so a short buffer fails before anything is consumed.
\<close>

fun chop :: "nat \<Rightarrow> nat \<Rightarrow> buffer \<Rightarrow> buffer list" where
  "chop w 0 bs = []"
| "chop w (Suc n) bs = take w bs # chop w n (drop w bs)"

definition getf_n :: "nat \<Rightarrow> nat \<Rightarrow> packed_reader \<Rightarrow> error + (nat list \<times> packed_reader)" where
  "getf_n w n pr = bindE (get_bytes (w * n) pr) (\<lambda>(bs, pr). Inr (map le_nat (chop w n bs), pr))"

definition getf_nI :: "nat \<Rightarrow> packed_reader \<Rightarrow> error + (nat list \<times> packed_reader)" where
  "getf_nI = getf_n 4"

definition getf_nf :: "nat \<Rightarrow> packed_reader \<Rightarrow> error + (f32 list \<times> packed_reader)" where
  "getf_nf n pr = bindE (getf_n 4 n pr) (\<lambda>(ns, pr). Inr (map of_nat ns, pr))"

definition getf_II :: "packed_reader \<Rightarrow> error + ((nat \<times> nat) \<times> packed_reader)" where
  "getf_II pr = bindE (getf_nI 2 pr) (\<lambda>(ns, pr). Inr ((ns ! 0, ns ! 1), pr))"

definition getf_ff :: "packed_reader \<Rightarrow> error + ((f32 \<times> f32) \<times> packed_reader)" where
  "getf_ff pr = bindE (getf_nf 2 pr) (\<lambda>(fs, pr). Inr ((fs ! 0, fs ! 1), pr))"

definition getf_fff :: "packed_reader \<Rightarrow> error + ((f32 \<times> f32 \<times> f32) \<times> packed_reader)" where
  "getf_fff pr = bindE (getf_nf 3 pr) (\<lambda>(fs, pr). Inr ((fs ! 0, fs ! 1, fs ! 2), pr))"

text \<open>\<open>gets\<close>: the bytes up to the null terminator, which is consumed and not returned.\<close>

definition gets :: "packed_reader \<Rightarrow> error + (string \<times> packed_reader)" where
  "gets pr =
     (let rest = drop (pr_offs pr) (pr_data pr);
          s = takeWhile (\<lambda>b. b \<noteq> CHR 0x00) rest
      in if length s < length rest
         then Inr (s, pr\<lparr>pr_offs := pr_offs pr + length s + 1\<rparr>)
         else Inl TruncatedData)"

text \<open>Direct cursor manipulation, and the view of the bytes from the cursor on.\<close>

definition offset :: "packed_reader \<Rightarrow> nat" where
  "offset pr = pr_offs pr"

definition set_offset :: "packed_reader \<Rightarrow> nat \<Rightarrow> packed_reader" where
  "set_offset pr pos = pr\<lparr>pr_offs := pos\<rparr>"

definition skip :: "packed_reader \<Rightarrow> nat \<Rightarrow> packed_reader" where
  "skip pr n = pr\<lparr>pr_offs := pr_offs pr + n\<rparr>"

definition getv :: "packed_reader \<Rightarrow> buffer" where
  "getv pr = drop (pr_offs pr) (pr_data pr)"

text \<open>
  The chunk framer. A reader is the bytes not yet consumed; a chunk is
  \<open>tag:u32 || length:u32 || payload\<close>. \<open>cr_next\<close> is one step of the iteration: \<open>None\<close> at
  the end of the buffer, and \<open>MalformedChunk\<close> when the header claims more than remains.
\<close>

type_synonym chunked_reader = buffer

definition cr_next :: "chunked_reader \<Rightarrow> error + ((nat \<times> buffer) \<times> chunked_reader) option" where
  "cr_next cr =
     (if cr = [] then Inr None
      else if length cr < 8 then Inl TruncatedData
      else
        (let cid = le_nat (take 4 cr);
             size = le_nat (take 4 (drop 4 cr))
         in if 8 + size \<le> length cr
            then Inr (Some ((cid, take size (drop 8 cr)), drop (8 + size) cr))
            else Inl MalformedChunk))"

text \<open>
  \<open>cr.next(expected_cid)\<close> and \<open>cr.nextf(expected_cid, 'H')[0]\<close>: the next chunk must
  carry the expected tag.
\<close>

definition cr_next_expected :: "chunked_reader \<Rightarrow> nat \<Rightarrow> error + (buffer \<times> chunked_reader)" where
  "cr_next_expected cr expected_cid =
     bindE (cr_next cr) (\<lambda>r.
       case r of
         None \<Rightarrow> Inl StopIteration
       | Some ((cid, data), cr') \<Rightarrow>
           if cid \<noteq> expected_cid then Inl (UnexpectedChunk expected_cid cid)
           else Inr (data, cr'))"

definition nextf_H :: "chunked_reader \<Rightarrow> nat \<Rightarrow> error + (nat \<times> chunked_reader)" where
  "nextf_H cr expected_cid =
     bindE (cr_next_expected cr expected_cid) (\<lambda>(data, cr').
     bindE (getf_H (PackedReader data)) (\<lambda>(v, pr). Inr (v, cr')))"

lemma cr_next_shorter:
  "cr_next cr = Inr (Some (c, cr')) \<Longrightarrow> length cr' < length cr"
  by (auto simp: cr_next_def Let_def split: if_splits)

text \<open>\<open>for (cid, data) in cr: body\<close>, with the state the body updates.\<close>

function fold_chunks ::
  "(nat \<Rightarrow> buffer \<Rightarrow> 's \<Rightarrow> error + 's) \<Rightarrow> chunked_reader \<Rightarrow> 's \<Rightarrow> error + 's" where
  "fold_chunks body cr s =
     (case cr_next cr of
        Inl e \<Rightarrow> Inl e
      | Inr None \<Rightarrow> Inr s
      | Inr (Some ((cid, data), cr')) \<Rightarrow>
          (case body cid data s of
             Inl e \<Rightarrow> Inl e
           | Inr s' \<Rightarrow> fold_chunks body cr' s'))"
  by pat_completeness auto
termination
  by (relation "measure (\<lambda>(body, cr, s). length cr)") (auto dest: cr_next_shorter)

declare fold_chunks.simps [simp del]

section \<open>Motion container index (\<open>skls_browser.py\<close>)\<close>

text \<open>
  \<open>SklsFile._index_animations\<close>. The cache \<open>self.animations\<close> maps a name to
  \<open>(file_offset, frames_count)\<close>. \<open>_skip_motion_rest\<close> belongs to \<open>xray_motions\<close>, which is
  not among the sources: the model takes it as the parameter \<open>skip_motion_rest\<close>, called
  on the view of the buffer from the cursor on and the offset 0 in that view.
\<close>

type_synonym animations = "string \<rightharpoonup> nat \<times> int"

fun index_loop ::
  "(buffer \<Rightarrow> nat \<Rightarrow> error + nat) \<Rightarrow> nat \<Rightarrow> packed_reader \<Rightarrow> animations \<Rightarrow>
   error + (packed_reader \<times> animations)" where
  "index_loop skip_motion_rest 0 pr animations = Inr (pr, animations)"
| "index_loop skip_motion_rest (Suc n) pr animations =
     (let offs = offset pr in
      bindE (gets pr) (\<lambda>(name, pr).
        let offset2 = offset pr in
        bindE (getf_II pr) (\<lambda>(frames_range, pr).
          let animations =
                animations(name \<mapsto> (offs, int (snd frames_range) - int (fst frames_range)));
              pr = set_offset pr offset2
          in bindE (skip_motion_rest (getv pr) 0) (\<lambda>n_skip.
               index_loop skip_motion_rest n (skip pr n_skip) animations))))"

definition index_animations ::
  "(buffer \<Rightarrow> nat \<Rightarrow> error + nat) \<Rightarrow> packed_reader \<Rightarrow> error + (packed_reader \<times> animations)" where
  "index_animations skip_motion_rest pr =
     bindE (getf_I pr) (\<lambda>(animations_count, pr).
       index_loop skip_motion_rest animations_count pr Map.empty)"

subsection \<open>Well-formed containers\<close>

text \<open>
  The layout the index is checked against: the clip count, then for each clip its
  null-terminated name and its body, which starts with the frame range. The length
  calculator is exact on a container when, at the body of each clip, it returns the
  length of that body.
\<close>

record clip =
  clip_name :: string
  start_frame :: nat
  end_frame :: nat
  keyframes :: buffer

definition clip_body :: "clip \<Rightarrow> buffer" where
  "clip_body c = le_bytes 4 (start_frame c) @ le_bytes 4 (end_frame c) @ keyframes c"

definition encode_clip :: "clip \<Rightarrow> buffer" where
  "encode_clip c = clip_name c @ [CHR 0x00] @ clip_body c"

definition encode_container :: "clip list \<Rightarrow> buffer" where
  "encode_container cs = le_bytes 4 (length cs) @ concat (map encode_clip cs)"

definition wf_clip :: "clip \<Rightarrow> bool" where
  "wf_clip c =
     (CHR 0x00 \<notin> set (clip_name c) \<and> start_frame c < 2 ^ 32 \<and> end_frame c < 2 ^ 32)"

fun exact_on :: "(buffer \<Rightarrow> nat \<Rightarrow> error + nat) \<Rightarrow> clip list \<Rightarrow> buffer \<Rightarrow> bool" where
  "exact_on skip_motion_rest [] rest = True"
| "exact_on skip_motion_rest (c # cs) rest =
     (skip_motion_rest (clip_body c @ concat (map encode_clip cs) @ rest) 0 =
        Inr (length (clip_body c)) \<and>
      exact_on skip_motion_rest cs rest)"

definition clip_offset :: "clip list \<Rightarrow> nat \<Rightarrow> nat" where
  "clip_offset cs i = 4 + length (concat (map encode_clip (take i cs)))"

text \<open>
  The index a well-formed container must produce: each clip in file order is stored
  under its name, with the offset of the first byte of its name and its frame count, a
  later clip replacing an earlier one of the same name.
\<close>

fun index_spec :: "nat \<Rightarrow> clip list \<Rightarrow> animations \<Rightarrow> animations" where
  "index_spec off [] a = a"
| "index_spec off (c # cs) a =
     index_spec (off + length (encode_clip c)) cs
       (a(clip_name c \<mapsto> (off, int (end_frame c) - int (start_frame c))))"

text \<open>
  A length calculator for the examples: the keyframe payload is one length byte followed
  by that many bytes.
\<close>

definition example_skip :: "buffer \<Rightarrow> nat \<Rightarrow> error + nat" where
  "example_skip d pos =
     (if pos + 8 < length d then Inr (9 + of_char (d ! (pos + 8))) else Inl TruncatedData)"

definition example_clips :: "clip list" where
  "example_clips =
     [\<lparr>clip_name = ''walk'', start_frame = 0, end_frame = 30, keyframes = [CHR 0x02, CHR ''a'', CHR ''b'']\<rparr>,
      \<lparr>clip_name = ''run'', start_frame = 10, end_frame = 25, keyframes = [CHR 0x00]\<rparr>,
      \<lparr>clip_name = ''idle'', start_frame = 5, end_frame = 305, keyframes = [CHR 0x01, CHR ''z'']\<rparr>]"

section \<open>Object decoder (\<open>fmt_object_imp.py\<close>)\<close>

subsection \<open>What the decoder takes from outside\<close>

text \<open>
  The table \<open>Chunks\<close> of \<open>fmt_object\<close> is not among the sources: the decoder takes the
  tags it compares against as a parameter, and nothing is assumed about their values.
\<close>

record mesh_chunks =
  M_VERSION :: nat
  M_VERTS :: nat
  M_FACES :: nat
  M_MESHNAME :: nat
  M_SG :: nat
  M_SFACE :: nat
  M_VMREFS :: nat
  M_VMAPS2 :: nat
  M_FLAGS :: nat
  M_BBOX :: nat
  M_OPTIONS :: nat

record bone_chunks =
  B_VERSION :: nat
  B_DEF :: nat
  B_BIND_POSE :: nat
  B_MATERIAL :: nat
  B_SHAPE :: nat
  B_IK_JOINT :: nat
  B_MASS_PARAMS :: nat
  B_IK_FLAGS :: nat
  B_BREAK_PARAMS :: nat
  B_FRICTION :: nat

record object_chunks =
  O_MAIN :: nat
  O_VERSION :: nat
  O_MESHES :: nat
  O_SURFACES2 :: nat
  O_BONES1 :: nat
  O_TRANSFORM :: nat
  O_FLAGS :: nat
  O_USERDATA :: nat
  O_LOD_REF :: nat
  O_REVISION :: nat
  O_PARTITIONS1 :: nat
  O_MOTION_REFS :: nat

record chunks =
  Mesh :: mesh_chunks
  Bone :: bone_chunks
  Object :: object_chunks

text \<open>
  The decoder does no float arithmetic of its own but the flip \<open>1 - v\<close> of a texture
  coordinate and the negation of the object rotation; matrices are built and multiplied
  by the host's \<open>mathutils\<close>. These operations are parameters of the model, as is
  \<open>New_object_basis\<close>, the \<open>matrix_basis\<close> of the object \<open>_import_main\<close> creates.
\<close>

type_synonym vec3f = "f32 \<times> f32 \<times> f32"

record 'm host_math =
  one_minus :: "f32 \<Rightarrow> f32"
  negate :: "f32 \<Rightarrow> f32"
  Matrix_Identity :: 'm
  New_object_basis :: 'm
  Matrix_Translation :: "vec3f \<Rightarrow> 'm"
  Euler_ZXY_matrix :: "vec3f \<Rightarrow> 'm"
  Euler_XYZ_matrix :: "vec3f \<Rightarrow> 'm"
  matmul :: "'m \<Rightarrow> 'm \<Rightarrow> 'm"
  origin_of :: "'m \<Rightarrow> vec3f"

text \<open>
  The data blocks of the host (\<open>bpy.data\<close>) the decoder reads and writes, and the
  console. An image is its position in \<open>bpy_images\<close>; \<open>bpy_files\<close> tells which paths the
  host can load; \<open>bpy_loads\<close> lists the paths \<open>bpy.data.images.load\<close> was called with.
\<close>

record material =
  mat_flags :: nat
  mat_eshader :: string
  mat_cshader :: string
  mat_gamemtl :: string
  mat_texture_slots :: "(string \<times> string) list"

record bpy =
  bpy_materials :: "string \<rightharpoonup> material"
  bpy_textures :: "string \<rightharpoonup> nat option"
  bpy_images :: "string list"
  bpy_files :: "string \<Rightarrow> bool"
  bpy_loads :: "string list"
  bpy_console :: "console list"

definition new_material :: material where
  "new_material = \<lparr>mat_flags = 0, mat_eshader = [], mat_cshader = [], mat_gamemtl = [],
                    mat_texture_slots = []\<rparr>"

definition warn_imknown_chunk :: "nat \<Rightarrow> string \<Rightarrow> bpy \<Rightarrow> bpy" where
  "warn_imknown_chunk cid location b =
     b\<lparr>bpy_console := bpy_console b @ [Warning_unknown_chunk cid location]\<rparr>"

definition report_warning :: "string \<Rightarrow> string \<Rightarrow> string \<Rightarrow> bpy \<Rightarrow> bpy" where
  "report_warning what a c b = b\<lparr>bpy_console := bpy_console b @ [Report_warning what a c]\<rparr>"

subsection \<open>Loops\<close>

fun repeatE :: "nat \<Rightarrow> ('s \<Rightarrow> error + 's) \<Rightarrow> 's \<Rightarrow> error + 's" where
  "repeatE 0 f s = Inr s"
| "repeatE (Suc n) f s = bindE (f s) (repeatE n f)"

fun foldE :: "('a \<Rightarrow> 's \<Rightarrow> error + 's) \<Rightarrow> 'a list \<Rightarrow> 's \<Rightarrow> error + 's" where
  "foldE f [] s = Inr s"
| "foldE f (x # xs) s = bindE (f x s) (foldE f xs)"

subsection \<open>The mesh under construction\<close>

text \<open>
  The \<open>bmesh\<close> and the mesh object of \<open>_import_mesh\<close>. A vertex is its position in
  \<open>me_verts\<close>; an edge is the unordered pair of its vertices, with its \<open>seam\<close> and \<open>smooth\<close>
  flags; the faces of the \<open>bmesh\<close> are the entries of \<open>bmfaces\<close> that are not \<open>None\<close>, since
  the \<open>bmesh\<close> is created empty and line 56 is the only place that adds a face. A loop is a
  face slot and a corner.
\<close>

type_synonym edge = "nat \<times> nat"

record face =
  face_verts :: "nat list"
  face_smooth :: bool
  face_material_index :: nat

record mesh =
  me_name :: string
  me_data_name :: string
  me_verts :: "vec3f list"
  me_bmfaces :: "face option list"
  me_seam :: "edge \<Rightarrow> bool"
  me_edge_smooth :: "edge \<Rightarrow> bool"
  me_modifiers :: "string list"
  me_materials :: "string list"
  me_uv_layers :: "string list"
  me_loop_uv :: "string \<times> nat \<times> nat \<rightharpoonup> f32 \<times> f32"
  me_vertex_groups :: "string list"
  me_deform :: "nat \<times> nat \<rightharpoonup> f32"
  me_flags :: "nat option"
  me_options :: "(nat \<times> nat) option"

definition new_mesh :: mesh where
  "new_mesh =
     \<lparr>me_name = ''tmp'', me_data_name = ''tmp.mesh'', me_verts = [], me_bmfaces = [],
      me_seam = (\<lambda>e. False), me_edge_smooth = (\<lambda>e. True), me_modifiers = [],
      me_materials = [], me_uv_layers = [], me_loop_uv = Map.empty, me_vertex_groups = [],
      me_deform = Map.empty, me_flags = None, me_options = None\<rparr>"

definition mk_edge :: "nat \<Rightarrow> nat \<Rightarrow> edge" where
  "mk_edge a b = (min a b, max a b)"

definition face_edges :: "face \<Rightarrow> edge list" where
  "face_edges f = map (\<lambda>(a, b). mk_edge a b) (zip (face_verts f) (rotate1 (face_verts f)))"

text \<open>
  The host's \<open>bm.faces.new\<close>: it raises \<open>ValueError\<close> (here \<open>None\<close>) when a vertex is used
  twice or a face on the same vertices exists already.
\<close>

definition faces_new :: "face option list \<Rightarrow> nat list \<Rightarrow> face option" where
  "faces_new existing vs =
     (if distinct vs \<and>
         (\<forall>f \<in> set existing. case f of None \<Rightarrow> True | Some g \<Rightarrow> set (face_verts g) \<noteq> set vs)
      then Some \<lparr>face_verts = vs, face_smooth = False, face_material_index = 0\<rparr>
      else None)"

text \<open>\<open>bmfaces[fi]\<close>.\<close>

definition bmfaces_at :: "mesh \<Rightarrow> nat \<Rightarrow> error + face option" where
  "bmfaces_at m fi =
     (if fi < length (me_bmfaces m) then Inr (me_bmfaces m ! fi) else Inl IndexError)"

subsection \<open>\<open>VERTS\<close> and \<open>FACES\<close>\<close>

definition verts_step :: "packed_reader \<times> mesh \<Rightarrow> error + (packed_reader \<times> mesh)" where
  "verts_step st =
     (case st of (pr, m) \<Rightarrow>
        bindE (getf_fff pr) (\<lambda>(co, pr). Inr (pr, m\<lparr>me_verts := me_verts m @ [co]\<rparr>)))"

definition verts_chunk :: "buffer \<Rightarrow> mesh \<Rightarrow> error + mesh" where
  "verts_chunk data m =
     bindE (getf_I (PackedReader data)) (\<lambda>(n, pr).
     bindE (repeatE n verts_step (pr, m)) (\<lambda>(pr, m). Inr m))"

definition faces_step :: "packed_reader \<times> mesh \<Rightarrow> error + (packed_reader \<times> mesh)" where
  "faces_step st =
     (case st of (pr, m) \<Rightarrow>
        bindE (getf_nI 6 pr) (\<lambda>(fr, pr).
          let vis = [fr ! 0, fr ! 2, fr ! 4] in
          if \<forall>vi \<in> set vis. vi < length (me_verts m)
          then Inr (pr, m\<lparr>me_bmfaces := me_bmfaces m @ [faces_new (me_bmfaces m) vis]\<rparr>)
          else Inl IndexError))"

definition faces_chunk :: "buffer \<Rightarrow> mesh \<Rightarrow> error + mesh" where
  "faces_chunk data m =
     bindE (getf_I (PackedReader data)) (\<lambda>(n, pr).
     bindE (repeatE n faces_step (pr, m)) (\<lambda>(pr, m). Inr m))"

subsection \<open>\<open>SG\<close>: smoothing groups\<close>

definition sg_edge :: "nat \<Rightarrow> edge \<Rightarrow> (edge \<rightharpoonup> nat) \<times> mesh \<Rightarrow> (edge \<rightharpoonup> nat) \<times> mesh" where
  "sg_edge sg bme st =
     (case st of (edict, m) \<Rightarrow>
        (case edict bme of
           None \<Rightarrow> (edict(bme \<mapsto> sg), m)
         | Some x \<Rightarrow>
             if x \<noteq> sg
             then (edict(bme \<mapsto> sg),
                   m\<lparr>me_seam := (me_seam m)(bme := True),
                     me_edge_smooth := (me_edge_smooth m)(bme := False)\<rparr>)
             else (edict, m)))"

definition sg_face ::
  "nat \<times> nat \<Rightarrow> (edge \<rightharpoonup> nat) \<times> mesh \<Rightarrow> error + ((edge \<rightharpoonup> nat) \<times> mesh)" where
  "sg_face fi_sg st =
     (case fi_sg of (fi, sg) \<Rightarrow> case st of (edict, m) \<Rightarrow>
        bindE (bmfaces_at m fi) (\<lambda>bmf.
          case bmf of
            None \<Rightarrow> Inr (edict, m)
          | Some f \<Rightarrow>
              Inr (fold (sg_edge sg) (face_edges f)
                     (edict, m\<lparr>me_bmfaces := (me_bmfaces m)[fi := Some (f\<lparr>face_smooth := True\<rparr>)]\<rparr>))))"

definition sg_chunk :: "buffer \<Rightarrow> mesh \<Rightarrow> error + mesh" where
  "sg_chunk data m =
     (let m = m\<lparr>me_modifiers := me_modifiers m @ [''XRay: do smoothing groups'']\<rparr> in
      bindE (getf_nI (length data div 4) (PackedReader data)) (\<lambda>(sgs, pr).
      bindE (foldE sg_face (enumerate 0 sgs) (Map.empty, m)) (\<lambda>(edict, m). Inr m)))"

subsection \<open>\<open>SFACE\<close>: surface materials\<close>

definition sface_face :: "nat \<Rightarrow> nat \<Rightarrow> mesh \<Rightarrow> error + mesh" where
  "sface_face midx fi m =
     bindE (bmfaces_at m fi) (\<lambda>bmf.
       case bmf of
         None \<Rightarrow> Inr m
       | Some f \<Rightarrow>
           Inr (m\<lparr>me_bmfaces := (me_bmfaces m)[fi := Some (f\<lparr>face_material_index := midx\<rparr>)]\<rparr>))"

definition sface_step ::
  "packed_reader \<times> mesh \<times> bpy \<Rightarrow> error + (packed_reader \<times> mesh \<times> bpy)" where
  "sface_step st =
     (case st of (pr, m, b) \<Rightarrow>
        bindE (gets pr) (\<lambda>(n, pr).
          let b = (case bpy_materials b n of
                     None \<Rightarrow> b\<lparr>bpy_materials := (bpy_materials b)(n \<mapsto> new_material)\<rparr>
                   | Some bmat \<Rightarrow> b);
              midx = length (me_materials m);
              m = m\<lparr>me_materials := me_materials m @ [n]\<rparr>
          in bindE (getf_I pr) (\<lambda>(cnt, pr).
             bindE (getf_nI cnt pr) (\<lambda>(fis, pr).
             bindE (foldE (sface_face midx) fis m) (\<lambda>m. Inr (pr, m, b))))))"

definition sface_chunk :: "buffer \<Rightarrow> mesh \<times> bpy \<Rightarrow> error + (mesh \<times> bpy)" where
  "sface_chunk data st =
     (case st of (m, b) \<Rightarrow>
        bindE (getf_H (PackedReader data)) (\<lambda>(n, pr).
        bindE (repeatE n sface_step (pr, m, b)) (\<lambda>(pr, m, b). Inr (m, b))))"

subsection \<open>\<open>VMAPS2\<close>: texture coordinates and weights\<close>

fun index_of :: "'a \<Rightarrow> 'a list \<Rightarrow> nat option" where
  "index_of x [] = None"
| "index_of x (y # ys) = (if y = x then Some 0 else map_option Suc (index_of x ys))"

text \<open>
  \<open>l[bml].uv = (uv[0], 1 - uv[1])\<close> for the first corner of face \<open>fi\<close> whose vertex is
  \<open>vi\<close>.
\<close>

definition uv_discon_entry ::
  "'m host_math \<Rightarrow> string \<Rightarrow> (f32 \<times> f32) \<times> nat \<times> nat \<Rightarrow> mesh \<Rightarrow> error + mesh" where
  "uv_discon_entry H n e m =
     (case e of (tc, vi, fi) \<Rightarrow>
        bindE (bmfaces_at m fi) (\<lambda>bmf.
          case bmf of
            None \<Rightarrow> Inr m
          | Some f \<Rightarrow>
              (case index_of vi (face_verts f) of
                 None \<Rightarrow> Inr m
               | Some c \<Rightarrow>
                   Inr (m\<lparr>me_loop_uv :=
                            (me_loop_uv m)((n, fi, c) \<mapsto> (fst tc, one_minus H (snd tc)))\<rparr>))))"

text \<open>\<open>bm.verts[vi].link_loops\<close>: the corners of all faces at vertex \<open>vi\<close>.\<close>

definition link_loops :: "mesh \<Rightarrow> nat \<Rightarrow> (nat \<times> nat) list" where
  "link_loops m vi =
     concat (map (\<lambda>(fi, bmf).
                    case bmf of
                      None \<Rightarrow> []
                    | Some f \<Rightarrow>
                        map (\<lambda>(c, v). (fi, c))
                          (filter (\<lambda>(c, v). v = vi) (enumerate 0 (face_verts f))))
                 (enumerate 0 (me_bmfaces m)))"

definition uv_con_entry ::
  "'m host_math \<Rightarrow> string \<Rightarrow> (f32 \<times> f32) \<times> nat \<Rightarrow> mesh \<Rightarrow> error + mesh" where
  "uv_con_entry H n e m =
     (case e of (tc, vi) \<Rightarrow>
        if vi < length (me_verts m)
        then Inr (fold (\<lambda>(fi, c) m.
                          m\<lparr>me_loop_uv :=
                               (me_loop_uv m)((n, fi, c) \<mapsto> (fst tc, one_minus H (snd tc)))\<rparr>)
                    (link_loops m vi) m)
        else Inl IndexError)"

definition uv_read ::
  "packed_reader \<times> (f32 \<times> f32) list \<Rightarrow> error + (packed_reader \<times> (f32 \<times> f32) list)" where
  "uv_read st = (case st of (pr, uvs) \<Rightarrow> bindE (getf_ff pr) (\<lambda>(tc, pr). Inr (pr, uvs @ [tc])))"

definition weight_entry :: "nat \<Rightarrow> f32 \<times> nat \<Rightarrow> mesh \<Rightarrow> error + mesh" where
  "weight_entry vgi e m =
     (case e of (vw, vi) \<Rightarrow>
        if vi < length (me_verts m)
        then Inr (m\<lparr>me_deform := (me_deform m)((vi, vgi) \<mapsto> vw)\<rparr>)
        else Inl IndexError)"

definition vmap_uv ::
  "'m host_math \<Rightarrow> string \<Rightarrow> bool \<Rightarrow> nat \<Rightarrow> packed_reader \<times> mesh \<Rightarrow>
   error + (packed_reader \<times> mesh)" where
  "vmap_uv H n discon sz st =
     (case st of (pr, m) \<Rightarrow>
        let m = (if n \<in> set (me_uv_layers m) then m
                 else m\<lparr>me_uv_layers := me_uv_layers m @ [n]\<rparr>)
        in bindE (repeatE sz uv_read (pr, [])) (\<lambda>(pr, uvs).
           bindE (getf_nI sz pr) (\<lambda>(vtx, pr).
             if discon then
               bindE (getf_nI sz pr) (\<lambda>(fcs, pr).
               bindE (foldE (uv_discon_entry H n) (zip uvs (zip vtx fcs)) m) (\<lambda>m. Inr (pr, m)))
             else
               bindE (foldE (uv_con_entry H n) (zip uvs vtx) m) (\<lambda>m. Inr (pr, m)))))"

definition vmap_weights ::
  "string \<Rightarrow> bool \<Rightarrow> nat \<Rightarrow> packed_reader \<times> mesh \<Rightarrow> error + (packed_reader \<times> mesh)" where
  "vmap_weights n discon sz st =
     (case st of (pr, m) \<Rightarrow>
        let vgi = length (me_vertex_groups m);
            m = m\<lparr>me_vertex_groups := me_vertex_groups m @ [n]\<rparr>
        in bindE (getf_nf sz pr) (\<lambda>(wgs, pr).
           bindE (getf_nI sz pr) (\<lambda>(vtx, pr).
             if discon then
               bindE (getf_nI sz pr) (\<lambda>(fcs, pr). Inr (pr, m))
             else
               bindE (foldE (weight_entry vgi) (zip wgs vtx) m) (\<lambda>m. Inr (pr, m)))))"

definition vmap_step ::
  "'m host_math \<Rightarrow> packed_reader \<times> mesh \<Rightarrow> error + (packed_reader \<times> mesh)" where
  "vmap_step H st =
     (case st of (pr, m) \<Rightarrow>
        bindE (gets pr) (\<lambda>(n, pr).
        bindE (getf_B pr) (\<lambda>(dim, pr).
        bindE (getf_B pr) (\<lambda>(d, pr).
          let discon = (d \<noteq> 0) in
          bindE (getf_B pr) (\<lambda>(t, pr).
            let typ = t AND 0x3 in
            bindE (getf_I pr) (\<lambda>(sz, pr).
              if typ = 0 then vmap_uv H n discon sz (pr, m)
              else if typ = 1 then vmap_weights n discon sz (pr, m)
              else Inl (UnknownVmapType typ)))))))"

definition vmaps2_chunk :: "'m host_math \<Rightarrow> buffer \<Rightarrow> mesh \<Rightarrow> error + mesh" where
  "vmaps2_chunk H data m =
     bindE (getf_I (PackedReader data)) (\<lambda>(n, pr).
     bindE (repeatE n (vmap_step H) (pr, m)) (\<lambda>(pr, m). Inr m))"

subsection \<open>\<open>_import_mesh\<close>\<close>

definition mesh_chunk ::
  "'m host_math \<Rightarrow> mesh_chunks \<Rightarrow> nat \<Rightarrow> buffer \<Rightarrow> mesh \<times> bpy \<Rightarrow> error + (mesh \<times> bpy)" where
  "mesh_chunk H C cid data st =
     (case st of (m, b) \<Rightarrow>
        if cid = M_VERTS C then bindE (verts_chunk data m) (\<lambda>m. Inr (m, b))
        else if cid = M_FACES C then bindE (faces_chunk data m) (\<lambda>m. Inr (m, b))
        else if cid = M_MESHNAME C then
          bindE (gets (PackedReader data)) (\<lambda>(s, pr).
            Inr (m\<lparr>me_name := s, me_data_name := s @ ''.mesh''\<rparr>, b))
        else if cid = M_SG C then bindE (sg_chunk data m) (\<lambda>m. Inr (m, b))
        else if cid = M_SFACE C then sface_chunk data (m, b)
        else if cid = M_VMREFS C then Inr (m, b)
        else if cid = M_VMAPS2 C then bindE (vmaps2_chunk H data m) (\<lambda>m. Inr (m, b))
        else if cid = M_FLAGS C then
          bindE (getf_B (PackedReader data)) (\<lambda>(fl, pr). Inr (m\<lparr>me_flags := Some fl\<rparr>, b))
        else if cid = M_BBOX C then Inr (m, b)
        else if cid = M_OPTIONS C then
          bindE (getf_II (PackedReader data)) (\<lambda>(opts, pr). Inr (m\<lparr>me_options := Some opts\<rparr>, b))
        else Inr (m, warn_imknown_chunk cid ''mesh'' b))"

definition import_mesh ::
  "'m host_math \<Rightarrow> mesh_chunks \<Rightarrow> bpy \<Rightarrow> chunked_reader \<Rightarrow> error + (mesh \<times> bpy)" where
  "import_mesh H C b cr =
     bindE (nextf_H cr (M_VERSION C)) (\<lambda>(ver, cr).
       if ver \<noteq> 0x11 then Inl (UnsupportedVersion ''MESH'' ver)
       else fold_chunks (mesh_chunk H C) cr (new_mesh, b))"

subsection \<open>What the smoothing-group chunk is checked against\<close>

text \<open>
  \<open>edge_visits\<close> lists, for an edge, the group ids of the non-null faces that have it, in
  the order the loop meets them; \<open>changes\<close> says that somewhere in such a list an id
  differs from the one before it. \<open>track\<close> runs the dictionary entry and the mark of one
  edge along a list of ids, and \<open>tracked\<close> relates two states of the loop by it.
\<close>

fun changes :: "nat list \<Rightarrow> bool" where
  "changes (x # y # ys) = (x \<noteq> y \<or> changes (y # ys))"
| "changes _ = False"

definition edge_visits :: "face option list \<Rightarrow> nat list \<Rightarrow> edge \<Rightarrow> nat list" where
  "edge_visits bmfaces sgs e =
     concat (map (\<lambda>(bmf, sg).
                    case bmf of
                      None \<Rightarrow> []
                    | Some f \<Rightarrow> map (\<lambda>x. sg) (filter (\<lambda>x. x = e) (face_edges f)))
                 (zip bmfaces sgs))"

definition set_smooth :: "face option \<Rightarrow> face option" where
  "set_smooth bmf = map_option (\<lambda>f. f\<lparr>face_smooth := True\<rparr>) bmf"

definition smooth_range :: "nat \<Rightarrow> nat \<Rightarrow> face option list \<Rightarrow> face option list" where
  "smooth_range k n fs =
     map (\<lambda>(i, bmf). if k \<le> i \<and> i < k + n then set_smooth bmf else bmf) (enumerate 0 fs)"

fun track :: "nat option \<Rightarrow> nat list \<Rightarrow> nat option \<times> bool" where
  "track l [] = (l, False)"
| "track l (sg # sgs) =
     (fst (track (Some sg) sgs), (l \<noteq> None \<and> l \<noteq> Some sg) \<or> snd (track (Some sg) sgs))"

definition tracked :: "edge \<Rightarrow> (edge \<rightharpoonup> nat) \<times> mesh \<Rightarrow> (edge \<rightharpoonup> nat) \<times> mesh \<Rightarrow> nat list \<Rightarrow> bool" where
  "tracked e st st' vis =
     (fst st' e = fst (track (fst st e) vis) \<and>
      me_seam (snd st') e = (me_seam (snd st) e \<or> snd (track (fst st e) vis)) \<and>
      me_edge_smooth (snd st') e = (me_edge_smooth (snd st) e \<and> \<not> snd (track (fst st e) vis)))"

definition same_but_flags :: "mesh \<Rightarrow> mesh \<Rightarrow> bool" where
  "same_but_flags m m' =
     (me_name m' = me_name m \<and> me_data_name m' = me_data_name m \<and>
      me_verts m' = me_verts m \<and> me_modifiers m' = me_modifiers m \<and>
      me_materials m' = me_materials m \<and> me_uv_layers m' = me_uv_layers m \<and>
      me_loop_uv m' = me_loop_uv m \<and> me_vertex_groups m' = me_vertex_groups m \<and>
      me_deform m' = me_deform m \<and> me_flags m' = me_flags m \<and>
      me_options m' = me_options m \<and> mesh.more m' = mesh.more m)"

definition sg_ids :: "buffer \<Rightarrow> nat list" where
  "sg_ids data =
     map le_nat (chop 4 (length data div 4) (take (4 * (length data div 4)) data))"

definition example_mesh :: mesh where
  "example_mesh =
     new_mesh\<lparr>me_verts := replicate 4 (0, 0, 0),
              me_bmfaces :=
                [Some \<lparr>face_verts = [0, 1, 2], face_smooth = False, face_material_index = 0\<rparr>,
                 Some \<lparr>face_verts = [0, 2, 3], face_smooth = False, face_material_index = 0\<rparr>]\<rparr>"


subsection \<open>What the face chunk is checked against\<close>

text \<open>
  A face chunk as the format lays it out: the count, then six indices per face, of
  which the first, third and fifth are the vertices. \<open>build_faces\<close> is the face list a
  well-formed chunk must produce, a rejected face leaving \<open>None\<close> at its slot.
\<close>

definition encode_u32s :: "nat list \<Rightarrow> buffer" where
  "encode_u32s xs = concat (map (le_bytes 4) xs)"

definition encode_faces :: "nat list list \<Rightarrow> buffer" where
  "encode_faces frs = le_bytes 4 (length frs) @ concat (map encode_u32s frs)"

definition face_corners :: "nat list \<Rightarrow> nat list" where
  "face_corners fr = [fr ! 0, fr ! 2, fr ! 4]"

fun build_faces :: "face option list \<Rightarrow> nat list list \<Rightarrow> face option list" where
  "build_faces fs [] = fs"
| "build_faces fs (fr # frs) = build_faces (fs @ [faces_new fs (face_corners fr)]) frs"

definition wf_face_record :: "nat \<Rightarrow> nat list \<Rightarrow> bool" where
  "wf_face_record nv fr =
     (length fr = 6 \<and> list_all (\<lambda>x. x < 2 ^ 32) fr \<and> list_all (\<lambda>vi. vi < nv) (face_corners fr))"

subsection \<open>Examples\<close>

text \<open>
  A host whose matrices are the expressions that build them, a mesh of three vertices,
  and a face chunk with one good face, one face that uses a vertex twice and one face on
  the vertices of the first.
\<close>

datatype mexpr = MId | MTranslation vec3f | MEulerZXY vec3f | MEulerXYZ vec3f | MMul mexpr mexpr

definition example_host :: "mexpr host_math" where
  "example_host =
     \<lparr>one_minus = (\<lambda>x. 1 - x), negate = (\<lambda>x. - x), Matrix_Identity = MId, New_object_basis = MId,
      Matrix_Translation = MTranslation, Euler_ZXY_matrix = MEulerZXY,
      Euler_XYZ_matrix = MEulerXYZ, matmul = MMul, origin_of = (\<lambda>m. (0, 0, 0))\<rparr>"

definition example_face_records :: "nat list list" where
  "example_face_records = [[0, 0, 1, 0, 2, 0], [0, 0, 0, 0, 1, 0], [2, 0, 0, 0, 1, 0]]"

definition example_verts_mesh :: mesh where
  "example_verts_mesh = new_mesh\<lparr>me_verts := replicate 3 (0, 0, 0)\<rparr>"

definition example_faces_mesh :: mesh where
  "example_faces_mesh =
     example_verts_mesh\<lparr>me_bmfaces :=
       [Some \<lparr>face_verts = [0, 1, 2], face_smooth = False, face_material_index = 0\<rparr>,
        None, None]\<rparr>"

definition example_weight_vmap :: buffer where
  "example_weight_vmap =
     ''bone'' @ CHR 0x00 # CHR 0x01 # CHR 0x01 # CHR 0x01 # le_bytes 4 1 @
     (le_bytes 4 0x3F800000 @ le_bytes 4 0 @ le_bytes 4 0)"


subsection \<open>\<open>ImportContext\<close>\<close>

text \<open>
  The context of one import. \<open>cx_images\<close> is the private dictionary \<open>__images\<close>, created
  empty by \<open>__init__\<close>. Python's \<open>str.lower\<close> is the parameter \<open>lower\<close> and \<open>os.path.sep\<close> the
  parameter \<open>sep\<close>. The host's \<open>bpy.data.images.load\<close> makes a new image of a file it can
  read and raises otherwise; either way the call is recorded in \<open>bpy_loads\<close>.
\<close>

record import_context =
  cx_file_path :: string
  cx_object_name :: string
  cx_gamedata_folder :: string
  cx_images :: "string \<rightharpoonup> nat"



definition images_load :: "bpy \<Rightarrow> string \<Rightarrow> (error + nat) \<times> bpy" where
  "images_load b path =
     (let b = b\<lparr>bpy_loads := bpy_loads b @ [path]\<rparr>
      in if bpy_files b path
         then (Inr (length (bpy_images b)), b\<lparr>bpy_images := bpy_images b @ [path]\<rparr>)
         else (Inl (LoadError path), b))"

text \<open>\<open>relpath.lower().replace('\\', os.path.sep)\<close>.\<close>

definition normalize_relpath :: "(string \<Rightarrow> string) \<Rightarrow> char \<Rightarrow> string \<Rightarrow> string" where
  "normalize_relpath lower sep relpath =
     map (\<lambda>c. if c = CHR 0x5C then sep else c) (lower relpath)"

text \<open>
  \<open>ImportContext.image\<close>: the image or the exception, with the context and the host as
  the call leaves them. The dictionary is written only after the load has returned.
\<close>

definition image ::
  "(string \<Rightarrow> string) \<Rightarrow> char \<Rightarrow> import_context \<times> bpy \<Rightarrow> string \<Rightarrow>
   (error + nat) \<times> import_context \<times> bpy" where
  "image lower sep st relpath =
     (case st of (cx, b) \<Rightarrow>
        let relpath = normalize_relpath lower sep relpath in
        case cx_images cx relpath of
          Some result \<Rightarrow> (Inr result, cx, b)
        | None \<Rightarrow>
            (case images_load b (cx_gamedata_folder cx @ ''/textures/'' @ relpath @ ''.dds'') of
               (Inr result, b) \<Rightarrow>
                 (Inr result, cx\<lparr>cx_images := (cx_images cx)(relpath \<mapsto> result)\<rparr>, b)
             | (Inl e, b) \<Rightarrow> (Inl e, cx, b)))"








subsection \<open>\<open>_import_bone\<close>\<close>

text \<open>
  The physical properties of a bone (\<open>bone.xray\<close>) are a dictionary from the property
  path, such as \<open>''shape.box_rot''\<close>, to the value read. A bone chunk that only fills in
  properties is the list of its properties with their formats, read in order.
\<close>

datatype pval = PNat nat | PFloat f32 | PVec "f32 list" | PStr string

datatype fmt = Fmt_H | Fmt_I | Fmt_f | Fmt_nf nat | Fmt_s

record bone =
  bone_name :: string
  bone_parent :: "string option"
  bone_head :: vec3f
  bone_group :: "string option"
  bone_xray :: "string \<rightharpoonup> pval"

record armature =
  arm_bones :: "bone list"
  arm_bone_groups :: "string list"

fun read_prop :: "fmt \<Rightarrow> packed_reader \<Rightarrow> error + (pval \<times> packed_reader)" where
  "read_prop Fmt_H pr = bindE (getf_H pr) (\<lambda>(v, pr). Inr (PNat v, pr))"
| "read_prop Fmt_I pr = bindE (getf_I pr) (\<lambda>(v, pr). Inr (PNat v, pr))"
| "read_prop Fmt_f pr = bindE (getf_f pr) (\<lambda>(v, pr). Inr (PFloat v, pr))"
| "read_prop (Fmt_nf n) pr = bindE (getf_nf n pr) (\<lambda>(v, pr). Inr (PVec v, pr))"
| "read_prop Fmt_s pr = bindE (gets pr) (\<lambda>(v, pr). Inr (PStr v, pr))"

definition read_prop_into ::
  "string \<times> fmt \<Rightarrow> packed_reader \<times> (string \<rightharpoonup> pval) \<Rightarrow>
   error + (packed_reader \<times> (string \<rightharpoonup> pval))" where
  "read_prop_into p st =
     (case p of (path, f) \<Rightarrow> case st of (pr, xray) \<Rightarrow>
        bindE (read_prop f pr) (\<lambda>(v, pr). Inr (pr, xray(path \<mapsto> v))))"

definition read_props ::
  "(string \<times> fmt) list \<Rightarrow> buffer \<Rightarrow> (string \<rightharpoonup> pval) \<Rightarrow> error + (string \<rightharpoonup> pval)" where
  "read_props ps data xray =
     bindE (foldE read_prop_into ps (PackedReader data, xray)) (\<lambda>(pr, xray). Inr xray)"

definition shape_props :: "(string \<times> fmt) list" where
  "shape_props =
     [(''shape.type'', Fmt_H), (''shape.flags'', Fmt_H), (''shape.box_rot'', Fmt_nf 9),
      (''shape.box_trn'', Fmt_nf 3), (''shape.box_hsz'', Fmt_nf 3),
      (''shape.sph_pos'', Fmt_nf 3), (''shape.sph_rad'', Fmt_f),
      (''shape.cyl_pos'', Fmt_nf 3), (''shape.cyl_dir'', Fmt_nf 3),
      (''shape.cyl_hgh'', Fmt_f), (''shape.cyl_rad'', Fmt_f)]"

definition ik_joint_props :: "(string \<times> fmt) list" where
  "ik_joint_props =
     [(''ikjoint.type'', Fmt_I), (''ikjoint.limits'', Fmt_nf 3), (''ikjoint.lim_spr'', Fmt_f),
      (''ikjoint.lim_dmp'', Fmt_f), (''ikjoint.spring'', Fmt_f), (''ikjoint.damping'', Fmt_f)]"

definition mass_props :: "(string \<times> fmt) list" where
  "mass_props = [(''mass.value'', Fmt_f), (''mass.center'', Fmt_nf 3)]"

definition break_props :: "(string \<times> fmt) list" where
  "break_props = [(''breakf.force'', Fmt_f), (''breakf.torque'', Fmt_f)]"

text \<open>
  \<open>edit_bones[name]\<close> and \<open>bones[name]\<close>: the position of the bone of that name. The host
  is taken to keep the names it is given.
\<close>

fun find_bone :: "string \<Rightarrow> bone list \<Rightarrow> nat option" where
  "find_bone n [] = None"
| "find_bone n (x # xs) = (if bone_name x = n then Some 0 else map_option Suc (find_bone n xs))"

definition bone_index :: "armature \<Rightarrow> string \<Rightarrow> error + nat" where
  "bone_index arm n = (case find_bone n (arm_bones arm) of None \<Rightarrow> Inl KeyError | Some i \<Rightarrow> Inr i)"

definition update_xray ::
  "nat \<Rightarrow> ((string \<rightharpoonup> pval) \<Rightarrow> (string \<rightharpoonup> pval)) \<Rightarrow> armature \<Rightarrow> armature" where
  "update_xray bi f arm =
     arm\<lparr>arm_bones :=
           (arm_bones arm)[bi := (arm_bones arm ! bi)\<lparr>bone_xray := f (bone_xray (arm_bones arm ! bi))\<rparr>]\<rparr>"

definition bone_props ::
  "(string \<times> fmt) list \<Rightarrow> buffer \<Rightarrow> nat \<Rightarrow> armature \<times> bpy \<Rightarrow> error + (armature \<times> bpy)" where
  "bone_props ps data bi st =
     (case st of (arm, b) \<Rightarrow>
        bindE (read_props ps data (bone_xray (arm_bones arm ! bi))) (\<lambda>xray.
          Inr (update_xray bi (\<lambda>old. xray) arm, b)))"

text \<open>The loop over the chunks after the bind pose.\<close>

definition bone_chunk ::
  "bone_chunks \<Rightarrow> string \<Rightarrow> nat \<Rightarrow> nat \<Rightarrow> buffer \<Rightarrow> armature \<times> bpy \<Rightarrow>
   error + (armature \<times> bpy)" where
  "bone_chunk C name bi cid data st =
     (case st of (arm, b) \<Rightarrow>
        if cid = B_DEF C then
          bindE (gets (PackedReader data)) (\<lambda>(s, pr).
            Inr (arm, if name \<noteq> s then report_warning ''bone name != bone def2'' name s b else b))
        else if cid = B_MATERIAL C then bone_props [(''gamemtl'', Fmt_s)] data bi (arm, b)
        else if cid = B_SHAPE C then bone_props shape_props data bi (arm, b)
        else if cid = B_IK_JOINT C then bone_props ik_joint_props data bi (arm, b)
        else if cid = B_MASS_PARAMS C then bone_props mass_props data bi (arm, b)
        else if cid = B_IK_FLAGS C then bone_props [(''ikflags'', Fmt_I)] data bi (arm, b)
        else if cid = B_BREAK_PARAMS C then bone_props break_props data bi (arm, b)
        else if cid = B_FRICTION C then bone_props [(''friction'', Fmt_f)] data bi (arm, b)
        else Inr (arm, warn_imknown_chunk cid ''bone'' b))"

text \<open>
  The bind matrix of a bone:
  \<open>bonemat.get(parent, Identity(4)) * Translation(offset) * Euler(rotate, 'ZXY')\<close>.
\<close>

definition bind_matrix ::
  "'m host_math \<Rightarrow> (string \<rightharpoonup> 'm) \<Rightarrow> string \<Rightarrow> vec3f \<Rightarrow> vec3f \<Rightarrow> 'm" where
  "bind_matrix H bonemat parent offs rot =
     matmul H
       (matmul H (case bonemat parent of None \<Rightarrow> Matrix_Identity H | Some p \<Rightarrow> p)
          (Matrix_Translation H offs))
       (Euler_ZXY_matrix H rot)"

definition import_bone ::
  "'m host_math \<Rightarrow> bone_chunks \<Rightarrow> chunked_reader \<Rightarrow> armature \<times> (string \<rightharpoonup> 'm) \<times> bpy \<Rightarrow>
   error + (armature \<times> (string \<rightharpoonup> 'm) \<times> bpy)" where
  "import_bone H C cr st =
     (case st of (arm, bonemat, b) \<Rightarrow>
        bindE (nextf_H cr (B_VERSION C)) (\<lambda>(ver, cr).
          if ver \<noteq> 0x2 then Inl (UnsupportedVersion ''BONE'' ver)
          else
            bindE (cr_next_expected cr (B_DEF C)) (\<lambda>(data, cr).
            bindE (gets (PackedReader data)) (\<lambda>(name, pr).
            bindE (gets pr) (\<lambda>(parent, pr).
            bindE (gets pr) (\<lambda>(vmap, pr).
              let b = (if name \<noteq> vmap
                       then report_warning ''bone name != bone vmap'' name vmap b else b)
              in
              bindE (cr_next_expected cr (B_BIND_POSE C)) (\<lambda>(data, cr).
              bindE (getf_fff (PackedReader data)) (\<lambda>(offs, pr).
              bindE (getf_fff pr) (\<lambda>(rot, pr).
              bindE (getf_f pr) (\<lambda>(len, pr).
              bindE (if parent \<noteq> []
                     then bindE (bone_index arm parent) (\<lambda>i. Inr (Some parent))
                     else Inr None) (\<lambda>par.
                let mat = bind_matrix H bonemat parent offs rot;
                    bonemat = bonemat(name \<mapsto> mat);
                    arm = arm\<lparr>arm_bones := arm_bones arm @
                            [\<lparr>bone_name = name, bone_parent = par, bone_head = origin_of H mat,
                              bone_group = None, bone_xray = Map.empty\<rparr>]\<rparr>
                in
                bindE (bone_index arm name) (\<lambda>bi.
                  let arm = update_xray bi (\<lambda>xray. xray(''length'' \<mapsto> PFloat len)) arm in
                  bindE (fold_chunks (bone_chunk C name bi) cr (arm, b)) (\<lambda>(arm, b).
                    Inr (arm, bonemat, b))))))))))))))"

text \<open>The loop of the \<open>BONES1\<close> chunk: every sub-chunk is a bone, in file order.\<close>

definition import_bones ::
  "'m host_math \<Rightarrow> bone_chunks \<Rightarrow> buffer \<Rightarrow> armature \<times> bpy \<Rightarrow> error + (armature \<times> bpy)" where
  "import_bones H C data st =
     (case st of (arm, b) \<Rightarrow>
        bindE (fold_chunks (\<lambda>cid bdat. import_bone H C bdat) data (arm, Map.empty, b))
          (\<lambda>(arm, bonemat, b). Inr (arm, b)))"

subsection \<open>\<open>_import_main\<close>, \<open>_import\<close> and \<open>import_file\<close>\<close>

text \<open>
  The object under construction and the state of \<open>_import_main\<close>: the context, the host,
  the object, the armature once a \<open>BONES1\<close> chunk has created it, and the meshes so far.
  The model follows the decoding and the exceptions; of the host's scene it keeps what
  the decoder writes (linking objects into the scene, edit modes and bone tails are not
  modelled). The host module \<open>cx.bpy\<close> is taken to be present.
\<close>

record 'm xobject =
  ob_name :: string
  ob_matrix_basis :: 'm
  ob_flags :: "nat option"
  ob_userdata :: "string option"
  ob_lodref :: "string option"
  ob_revision :: "(string \<times> nat \<times> string \<times> nat) option"
  ob_motionrefs :: "string option"

record 'm import_state =
  st_cx :: import_context
  st_bpy :: bpy
  st_obj :: "'m xobject"
  st_arm :: "armature option"
  st_meshes :: "mesh list"
  st_uv_images :: "nat option list list"

definition new_object :: "'m host_math \<Rightarrow> string \<Rightarrow> 'm xobject" where
  "new_object H n =
     \<lparr>ob_name = n, ob_matrix_basis = New_object_basis H, ob_flags = None, ob_userdata = None,
      ob_lodref = None, ob_revision = None, ob_motionrefs = None\<rparr>"

text \<open>\<open>MESHES\<close>: every sub-chunk is a mesh.\<close>

definition meshes_chunk ::
  "'m host_math \<Rightarrow> mesh_chunks \<Rightarrow> buffer \<Rightarrow> 'm import_state \<Rightarrow> error + 'm import_state" where
  "meshes_chunk H C data s =
     fold_chunks
       (\<lambda>cid mdat s.
          bindE (import_mesh H C (st_bpy s) mdat) (\<lambda>(m, b).
            Inr (s\<lparr>st_bpy := b, st_meshes := st_meshes s @ [m]\<rparr>)))
       data s"

text \<open>\<open>SURFACES2\<close>.\<close>

definition surface_step ::
  "(string \<Rightarrow> string) \<Rightarrow> char \<Rightarrow> packed_reader \<times> import_context \<times> bpy \<Rightarrow>
   error + (packed_reader \<times> import_context \<times> bpy)" where
  "surface_step lower sep st =
     (case st of (pr, cx, b) \<Rightarrow>
        bindE (gets pr) (\<lambda>(n, pr).
        bindE (gets pr) (\<lambda>(eshader, pr).
        bindE (gets pr) (\<lambda>(cshader, pr).
        bindE (gets pr) (\<lambda>(gamemtl, pr).
        bindE (gets pr) (\<lambda>(texture, pr).
        bindE (gets pr) (\<lambda>(vmap, pr).
        bindE (getf_I pr) (\<lambda>(flags, pr).
        bindE (getf_I pr) (\<lambda>(fvf, pr).
        bindE (getf_I pr) (\<lambda>(unknown, pr).
          case bpy_materials b n of
            None \<Rightarrow> Inr (pr, cx, b)
          | Some bpy_material \<Rightarrow>
              (let mat = bpy_material\<lparr>mat_flags := flags, mat_eshader := eshader,
                           mat_cshader := cshader, mat_gamemtl := gamemtl\<rparr>;
                   b = b\<lparr>bpy_materials := (bpy_materials b)(n \<mapsto> mat)\<rparr>
               in if texture \<noteq> [] then
                    bindE (case bpy_textures b texture of
                             Some t \<Rightarrow> Inr (cx, b)
                           | None \<Rightarrow>
                               (case image lower sep (cx, b) texture of
                                  (Inl e, cx, b) \<Rightarrow> Inl e
                                | (Inr img, cx, b) \<Rightarrow>
                                    Inr (cx, b\<lparr>bpy_textures :=
                                                  (bpy_textures b)(texture \<mapsto> Some img)\<rparr>)))
                      (\<lambda>(cx, b).
                         Inr (pr, cx,
                              b\<lparr>bpy_materials :=
                                  (bpy_materials b)
                                    (n \<mapsto> mat\<lparr>mat_texture_slots :=
                                               mat_texture_slots mat @ [(texture, vmap)]\<rparr>)\<rparr>))
                  else Inr (pr, cx, b))))))))))))"

definition surfaces2_chunk ::
  "(string \<Rightarrow> string) \<Rightarrow> char \<Rightarrow> buffer \<Rightarrow> 'm import_state \<Rightarrow> error + 'm import_state" where
  "surfaces2_chunk lower sep data s =
     bindE (getf_I (PackedReader data)) (\<lambda>(n, pr).
     bindE (repeatE n (surface_step lower sep) (pr, st_cx s, st_bpy s)) (\<lambda>(pr, cx, b).
       Inr (s\<lparr>st_cx := cx, st_bpy := b\<rparr>)))"

text \<open>
  \<open>BONES1\<close>: the armature is created by the first such chunk; the transforms
  \<open>bonemat\<close> start empty in each; afterwards every mesh gets an armature modifier.
\<close>

definition bones1_chunk ::
  "'m host_math \<Rightarrow> bone_chunks \<Rightarrow> buffer \<Rightarrow> 'm import_state \<Rightarrow> error + 'm import_state" where
  "bones1_chunk H C data s =
     (let arm = (case st_arm s of
                   None \<Rightarrow> \<lparr>arm_bones = [], arm_bone_groups = []\<rparr>
                 | Some a \<Rightarrow> a)
      in bindE (import_bones H C data (arm, st_bpy s)) (\<lambda>(arm, b).
           Inr (s\<lparr>st_arm := Some arm, st_bpy := b,
                  st_meshes :=
                    map (\<lambda>me. me\<lparr>me_modifiers := me_modifiers me @ [''Armature'']\<rparr>) (st_meshes s)\<rparr>)))"

text \<open>\<open>PARTITIONS1\<close>: bone groups. Without an armature the name \<open>bpy_arm_obj\<close> is unbound.\<close>

definition partition_bone ::
  "string \<Rightarrow> packed_reader \<times> armature \<Rightarrow> error + (packed_reader \<times> armature)" where
  "partition_bone bg st =
     (case st of (pr, arm) \<Rightarrow>
        bindE (gets pr) (\<lambda>(bn, pr).
        bindE (bone_index arm bn) (\<lambda>i.
          Inr (pr, arm\<lparr>arm_bones :=
                        (arm_bones arm)[i := (arm_bones arm ! i)\<lparr>bone_group := Some bg\<rparr>]\<rparr>))))"

definition partition_step ::
  "packed_reader \<times> armature \<Rightarrow> error + (packed_reader \<times> armature)" where
  "partition_step st =
     (case st of (pr, arm) \<Rightarrow>
        bindE (gets pr) (\<lambda>(bg, pr).
          let arm = arm\<lparr>arm_bone_groups := arm_bone_groups arm @ [bg]\<rparr> in
          bindE (getf_I pr) (\<lambda>(n, pr). repeatE n (partition_bone bg) (pr, arm))))"

definition partitions1_chunk :: "buffer \<Rightarrow> 'm import_state \<Rightarrow> error + 'm import_state" where
  "partitions1_chunk data s =
     (case st_arm s of
        None \<Rightarrow> Inl NameError
      | Some arm \<Rightarrow>
          bindE (getf_I (PackedReader data)) (\<lambda>(n, pr).
          bindE (repeatE n partition_step (pr, arm)) (\<lambda>(pr, arm). Inr (s\<lparr>st_arm := Some arm\<rparr>))))"

definition update_obj ::
  "('m xobject \<Rightarrow> 'm xobject) \<Rightarrow> 'm import_state \<Rightarrow> 'm import_state" where
  "update_obj f s = s\<lparr>st_obj := f (st_obj s)\<rparr>"

definition main_chunk ::
  "'m host_math \<Rightarrow> chunks \<Rightarrow> (string \<Rightarrow> string) \<Rightarrow> char \<Rightarrow> nat \<Rightarrow> buffer \<Rightarrow> 'm import_state \<Rightarrow>
   error + 'm import_state" where
  "main_chunk H C lower sep cid data s =
     (if cid = O_MESHES (Object C) then meshes_chunk H (Mesh C) data s
      else if cid = O_SURFACES2 (Object C) then surfaces2_chunk lower sep data s
      else if cid = O_BONES1 (Object C) then bones1_chunk H (Bone C) data s
      else if cid = O_TRANSFORM (Object C) then
        bindE (getf_fff (PackedReader data)) (\<lambda>(pos, pr).
        bindE (getf_fff pr) (\<lambda>(r, pr).
          Inr (update_obj
                 (\<lambda>ob. ob\<lparr>ob_matrix_basis :=
                     matmul H (ob_matrix_basis ob)
                       (matmul H (Matrix_Translation H pos)
                          (Euler_XYZ_matrix H
                             (case r of (r0, r1, r2) \<Rightarrow>
                                (negate H r0, negate H r1, negate H r2))))\<rparr>) s)))
      else if cid = O_FLAGS (Object C) then
        bindE (getf_I (PackedReader data)) (\<lambda>(v, pr).
          Inr (update_obj (\<lambda>ob. ob\<lparr>ob_flags := Some v\<rparr>) s))
      else if cid = O_USERDATA (Object C) then
        bindE (gets (PackedReader data)) (\<lambda>(v, pr).
          Inr (update_obj (\<lambda>ob. ob\<lparr>ob_userdata := Some v\<rparr>) s))
      else if cid = O_LOD_REF (Object C) then
        bindE (gets (PackedReader data)) (\<lambda>(v, pr).
          Inr (update_obj (\<lambda>ob. ob\<lparr>ob_lodref := Some v\<rparr>) s))
      else if cid = O_REVISION (Object C) then
        bindE (gets (PackedReader data)) (\<lambda>(owner, pr).
        bindE (getf_I pr) (\<lambda>(ctime, pr).
        bindE (gets pr) (\<lambda>(moder, pr).
        bindE (getf_I pr) (\<lambda>(mtime, pr).
          Inr (update_obj (\<lambda>ob. ob\<lparr>ob_revision := Some (owner, ctime, moder, mtime)\<rparr>) s)))))
      else if cid = O_PARTITIONS1 (Object C) then partitions1_chunk data s
      else if cid = O_MOTION_REFS (Object C) then
        bindE (gets (PackedReader data)) (\<lambda>(v, pr).
          Inr (update_obj (\<lambda>ob. ob\<lparr>ob_motionrefs := Some v\<rparr>) s))
      else Inr (s\<lparr>st_bpy := warn_imknown_chunk cid ''main'' (st_bpy s)\<rparr>))"

text \<open>
  The last loop of \<open>_import_main\<close>: each polygon of each mesh takes the image of the
  active texture of its material. The active texture is that of the first texture slot.
\<close>

definition polygon_image :: "bpy \<Rightarrow> mesh \<Rightarrow> face \<Rightarrow> error + nat option" where
  "polygon_image b m p =
     (if face_material_index p < length (me_materials m) then
        (case bpy_materials b (me_materials m ! face_material_index p) of
           None \<Rightarrow> Inl KeyError
         | Some bmat \<Rightarrow>
             (case mat_texture_slots bmat of
                [] \<Rightarrow> Inl AttributeError
              | (texture, vmap) # _ \<Rightarrow>
                  (case bpy_textures b texture of
                     None \<Rightarrow> Inl AttributeError
                   | Some img \<Rightarrow> Inr img)))
      else Inl IndexError)"

definition mesh_images :: "mesh \<Rightarrow> 'm import_state \<Rightarrow> error + 'm import_state" where
  "mesh_images m s =
     (if me_uv_layers m = [] then Inl IndexError
      else
        bindE (foldE (\<lambda>p imgs. bindE (polygon_image (st_bpy s) m p) (\<lambda>i. Inr (imgs @ [i])))
                 (concat (map (\<lambda>bmf. case bmf of None \<Rightarrow> [] | Some f \<Rightarrow> [f]) (me_bmfaces m))) [])
          (\<lambda>imgs. Inr (s\<lparr>st_uv_images := st_uv_images s @ [imgs]\<rparr>)))"

definition import_main ::
  "'m host_math \<Rightarrow> chunks \<Rightarrow> (string \<Rightarrow> string) \<Rightarrow> char \<Rightarrow> import_context \<times> bpy \<Rightarrow> chunked_reader \<Rightarrow>
   error + 'm import_state" where
  "import_main H C lower sep st cr =
     (case st of (cx, b) \<Rightarrow>
        bindE (nextf_H cr (O_VERSION (Object C))) (\<lambda>(ver, cr).
          if ver \<noteq> 0x10 then Inl (UnsupportedVersion ''OBJECT'' ver)
          else
            bindE (fold_chunks (main_chunk H C lower sep) cr
                     \<lparr>st_cx = cx, st_bpy = b, st_obj = new_object H (cx_object_name cx),
                      st_arm = None, st_meshes = [], st_uv_images = []\<rparr>)
              (\<lambda>s. foldE mesh_images (st_meshes s) s)))"

text \<open>
  \<open>_import\<close>: the root chunks. The state is the context and host, and the objects
  imported so far.
\<close>

definition root_chunk ::
  "'m host_math \<Rightarrow> chunks \<Rightarrow> (string \<Rightarrow> string) \<Rightarrow> char \<Rightarrow> nat \<Rightarrow> buffer \<Rightarrow>
   (import_context \<times> bpy) \<times> 'm import_state list \<Rightarrow>
   error + ((import_context \<times> bpy) \<times> 'm import_state list)" where
  "root_chunk H C lower sep cid data st =
     (case st of ((cx, b), objs) \<Rightarrow>
        if cid = O_MAIN (Object C) then
          bindE (import_main H C lower sep (cx, b) data) (\<lambda>s. Inr ((st_cx s, st_bpy s), objs @ [s]))
        else Inr ((cx, warn_imknown_chunk cid ''root'' b), objs))"

definition import_object ::
  "'m host_math \<Rightarrow> chunks \<Rightarrow> (string \<Rightarrow> string) \<Rightarrow> char \<Rightarrow> import_context \<times> bpy \<Rightarrow> chunked_reader \<Rightarrow>
   error + ((import_context \<times> bpy) \<times> 'm import_state list)" where
  "import_object H C lower sep st cr = fold_chunks (root_chunk H C lower sep) cr (st, [])"

subsection \<open>Chunk layout and example data\<close>

text \<open>
  A chunk as the framer lays it out, the tags the loops of the decoder recognise, and a
  tag table, a bone and a mesh for the examples.
\<close>

definition encode_chunk :: "nat \<Rightarrow> buffer \<Rightarrow> buffer" where
  "encode_chunk cid payload = le_bytes 4 cid @ le_bytes 4 (length payload) @ payload"

definition mesh_tags :: "mesh_chunks \<Rightarrow> nat list" where
  "mesh_tags C =
     [M_VERTS C, M_FACES C, M_MESHNAME C, M_SG C, M_SFACE C, M_VMREFS C, M_VMAPS2 C,
      M_FLAGS C, M_BBOX C, M_OPTIONS C]"

definition bone_tags :: "bone_chunks \<Rightarrow> nat list" where
  "bone_tags C =
     [B_DEF C, B_MATERIAL C, B_SHAPE C, B_IK_JOINT C, B_MASS_PARAMS C, B_IK_FLAGS C,
      B_BREAK_PARAMS C, B_FRICTION C]"

definition object_tags :: "object_chunks \<Rightarrow> nat list" where
  "object_tags C =
     [O_MESHES C, O_SURFACES2 C, O_BONES1 C, O_TRANSFORM C, O_FLAGS C, O_USERDATA C,
      O_LOD_REF C, O_REVISION C, O_PARTITIONS1 C, O_MOTION_REFS C]"

definition example_chunks :: chunks where
  "example_chunks =
     \<lparr>Mesh = \<lparr>M_VERSION = 0x1000, M_VERTS = 0x1005, M_FACES = 0x1006, M_MESHNAME = 0x1001,
               M_SG = 0x1013, M_SFACE = 0x1009, M_VMREFS = 0x1008, M_VMAPS2 = 0x1012,
               M_FLAGS = 0x1002, M_BBOX = 0x1004, M_OPTIONS = 0x1010\<rparr>,
      Bone = \<lparr>B_VERSION = 0x1, B_DEF = 0x2, B_BIND_POSE = 0x3, B_MATERIAL = 0x4,
               B_SHAPE = 0x5, B_IK_JOINT = 0x6, B_MASS_PARAMS = 0x7, B_IK_FLAGS = 0x8,
               B_BREAK_PARAMS = 0x9, B_FRICTION = 0x10\<rparr>,
      Object = \<lparr>O_MAIN = 0x7777, O_VERSION = 0x900, O_MESHES = 0x910, O_SURFACES2 = 0x907,
                 O_BONES1 = 0x921, O_TRANSFORM = 0x920, O_FLAGS = 0x903, O_USERDATA = 0x912,
                 O_LOD_REF = 0x925, O_REVISION = 0x922, O_PARTITIONS1 = 0x923,
                 O_MOTION_REFS = 0x924\<rparr>\<rparr>"

definition example_bone_chunk :: "string \<Rightarrow> string \<Rightarrow> nat list \<Rightarrow> buffer" where
  "example_bone_chunk n parent pose =
     encode_chunk 0x1 (le_bytes 2 0x2) @
     encode_chunk 0x2 (n @ [CHR 0x00] @ parent @ [CHR 0x00] @ n @ [CHR 0x00]) @
     encode_chunk 0x3 (encode_u32s pose)"

definition example_mesh_chunk :: "nat \<Rightarrow> buffer" where
  "example_mesh_chunk ver =
     encode_chunk 0x1000 (le_bytes 2 ver) @
     encode_chunk 0x1001 (''abc'' @ [CHR 0x00]) @
     encode_chunk 0x9999 ''zz''"

section \<open>Properties of the primitive codec\<close>

lemma le_nat_le_bytes: "le_nat (le_bytes k n) = n mod 256 ^ k"
proof (induction k arbitrary: n)
  case 0
  show ?case by simp
next
  case (Suc k)
  have "le_nat (le_bytes (Suc k) n) = n mod 256 + 256 * (n div 256 mod 256 ^ k)"
    by (simp add: Suc.IH)
  also have "\<dots> = n mod (256 * 256 ^ k)"
    by (simp add: mod_mult2_eq)
  finally show ?case by simp
qed

lemma length_le_bytes [simp]: "length (le_bytes k n) = k"
  by (induction k arbitrary: n) simp_all

lemma le_nat_u32: "n < 2 ^ 32 \<Longrightarrow> le_nat (le_bytes 4 n) = n"
  by (simp add: le_nat_le_bytes)

lemma get_bytes_at:
  "get_bytes (length bs) \<lparr>pr_data = pre @ bs @ rest, pr_offs = length pre\<rparr> =
     Inr (bs, \<lparr>pr_data = pre @ bs @ rest, pr_offs = length pre + length bs\<rparr>)"
  by (simp add: get_bytes_def)

lemma getf_I_at:
  assumes "n < 2 ^ 32"
  shows "getf_I \<lparr>pr_data = pre @ le_bytes 4 n @ rest, pr_offs = length pre\<rparr> =
     Inr (n, \<lparr>pr_data = pre @ le_bytes 4 n @ rest, pr_offs = length pre + 4\<rparr>)"
  using get_bytes_at[of "le_bytes 4 n" pre rest] le_nat_u32[OF assms]
  by (simp add: getf_I_def get_uint_def bindE_def)

lemma chop_2: "chop w 2 bs = [take w bs, take w (drop w bs)]"
  by (simp add: numeral_2_eq_2)

lemma getf_II_at:
  assumes "a < 2 ^ 32" "b < 2 ^ 32"
  shows "getf_II \<lparr>pr_data = pre @ le_bytes 4 a @ le_bytes 4 b @ rest, pr_offs = length pre\<rparr> =
     Inr ((a, b), \<lparr>pr_data = pre @ le_bytes 4 a @ le_bytes 4 b @ rest, pr_offs = length pre + 8\<rparr>)"
  using get_bytes_at[of "le_bytes 4 a @ le_bytes 4 b" pre rest] le_nat_u32[OF assms(1)]
    le_nat_u32[OF assms(2)]
  by (simp add: getf_II_def getf_nI_def getf_n_def bindE_def chop_2)

lemma gets_at:
  assumes "CHR 0x00 \<notin> set name"
  shows "gets \<lparr>pr_data = pre @ name @ CHR 0x00 # rest, pr_offs = length pre\<rparr> =
     Inr (name, \<lparr>pr_data = pre @ name @ CHR 0x00 # rest, pr_offs = length pre + length name + 1\<rparr>)"
proof -
  have "takeWhile (\<lambda>b. b \<noteq> CHR 0x00) (name @ CHR 0x00 # rest) = name"
    using assms by (subst takeWhile_append2) auto
  then show ?thesis by (simp add: gets_def Let_def)
qed

lemma length_chop [simp]: "length (chop w n bs) = n"
  by (induction n arbitrary: bs) simp_all

lemma length_encode_u32s [simp]: "length (encode_u32s xs) = 4 * length xs"
  by (induction xs) (simp_all add: encode_u32s_def)

lemma chop_encode_u32s:
  "list_all (\<lambda>x. x < 2 ^ 32) xs \<Longrightarrow>
   map le_nat (chop 4 (length xs) (encode_u32s xs @ rest)) = xs"
  by (induction xs) (simp_all add: encode_u32s_def le_nat_u32)

lemma getf_nI_at:
  assumes "list_all (\<lambda>x. x < 2 ^ 32) xs"
  shows "getf_nI (length xs) \<lparr>pr_data = pre @ encode_u32s xs @ rest, pr_offs = length pre\<rparr> =
     Inr (xs, \<lparr>pr_data = pre @ encode_u32s xs @ rest, pr_offs = length pre + 4 * length xs\<rparr>)"
  using get_bytes_at[of "encode_u32s xs" pre rest] chop_encode_u32s[OF assms, of "[]"]
  by (simp add: getf_nI_def getf_n_def bindE_def)

lemma getf_B_at:
  "getf_B \<lparr>pr_data = pre @ c # rest, pr_offs = length pre\<rparr> =
     Inr (of_char c, \<lparr>pr_data = pre @ c # rest, pr_offs = length pre + 1\<rparr>)"
  using get_bytes_at[of "[c]" pre rest]
  by (simp add: getf_B_def get_uint_def bindE_def)

lemma getf_n_enough:
  "pr_offs pr + w * k \<le> length (pr_data pr) \<Longrightarrow>
   \<exists>xs. getf_n w k pr = Inr (xs, pr\<lparr>pr_offs := pr_offs pr + w * k\<rparr>)"
  by (simp add: getf_n_def get_bytes_def bindE_def)

lemma getf_n_short:
  "\<not> pr_offs pr + w * k \<le> length (pr_data pr) \<Longrightarrow> getf_n w k pr = Inl TruncatedData"
  by (simp add: getf_n_def get_bytes_def bindE_def)


section \<open>Properties of the OGF encoder\<close>

subsection \<open>\<open>max_two\<close> keeps the two largest weights\<close>










subsection \<open>Vertex deduplication\<close>

lemma corner_keys_Cons:
  "corner_keys dls fi li (l # ls) = make_vtx l (dls ! (fi * 3 + li)) # corner_keys dls fi (Suc li) ls"
  by (simp add: corner_keys_def)

lemma dedup_ok_lookup: "dedup_ok (vs, m) \<Longrightarrow> m k = Some i \<longleftrightarrow> i < length vs \<and> vs ! i = k"
  by (simp add: dedup_ok_def)

lemma dedup_ok_distinct: "dedup_ok (vs, m) \<Longrightarrow> distinct vs"
  by (simp add: dedup_ok_def)

lemma dedup_ok_insert:
  assumes "dedup_ok (vs, m)" "m k = None"
  shows "dedup_ok (vs @ [k], m(k \<mapsto> length vs))"
proof -
  have c: "\<And>k i. m k = Some i \<longleftrightarrow> i < length vs \<and> vs ! i = k"
    by (rule dedup_ok_lookup[OF assms(1)])
  have nin: "k \<notin> set vs"
  proof
    assume "k \<in> set vs"
    then obtain i where "i < length vs" "vs ! i = k" by (auto simp: in_set_conv_nth)
    with c have "m k = Some i" by simp
    with assms(2) show False by simp
  qed
  have d: "distinct vs" by (rule dedup_ok_distinct[OF assms(1)])
  have "\<And>k' i. (m(k \<mapsto> length vs)) k' = Some i \<longleftrightarrow> i < length (vs @ [k]) \<and> (vs @ [k]) ! i = k'"
    using nin c by (auto simp: nth_append less_Suc_eq)
  with d nin show ?thesis by (simp add: dedup_ok_def)
qed

lemma set_snoc_Un: "A = set (vs @ [k]) \<union> S \<Longrightarrow> A = set vs \<union> insert k S"
  by auto

lemma set_mem_Un: "k \<in> set vs \<Longrightarrow> A = set vs \<union> S \<Longrightarrow> A = set vs \<union> insert k S"
  by auto

lemma set_Un_assoc': "A = B \<union> T \<Longrightarrow> B = C \<union> S \<Longrightarrow> A = C \<union> (S \<union> T)"
  by auto

lemma loops_loop_inv:
  assumes "dedup_ok (vs, m)" "fi * 3 + li + length ls \<le> length dls"
  shows "\<exists>vs' m' js. loops_loop dls fi li ls (vs, m) ii = Inr ((vs', m'), ii @ js) \<and>
           dedup_ok (vs', m') \<and> (\<exists>new. vs' = vs @ new) \<and>
           set vs' = set vs \<union> set (corner_keys dls fi li ls) \<and>
           map ((!) vs') js = corner_keys dls fi li ls \<and> (\<forall>j \<in> set js. j < length vs')"
  using assms
proof (induction ls arbitrary: li vs m ii)
  case Nil
  then show ?case by (simp add: corner_keys_def)
next
  case (Cons l ls)
  let ?k = "make_vtx l (dls ! (fi * 3 + li))"
  from Cons.prems(2) have r: "fi * 3 + li < length dls" "fi * 3 + Suc li + length ls \<le> length dls"
    by simp_all
  show ?case
  proof (cases "m ?k")
    case None
    have ok: "dedup_ok (vs @ [?k], m(?k \<mapsto> length vs))"
      by (rule dedup_ok_insert[OF Cons.prems(1) None])
    from Cons.IH[OF ok r(2), of "ii @ [length vs]"]
    obtain vs' m' js where
      run: "loops_loop dls fi (Suc li) ls (vs @ [?k], m(?k \<mapsto> length vs)) (ii @ [length vs]) =
            Inr ((vs', m'), (ii @ [length vs]) @ js)"
      and ok': "dedup_ok (vs', m')" and pre: "\<exists>new. vs' = (vs @ [?k]) @ new"
      and st: "set vs' = set (vs @ [?k]) \<union> set (corner_keys dls fi (Suc li) ls)"
      and mp: "map ((!) vs') js = corner_keys dls fi (Suc li) ls"
      and bd: "\<forall>j \<in> set js. j < length vs'"
      by blast
    from pre obtain new where new: "vs' = vs @ ?k # new" by auto
    have "loops_loop dls fi li (l # ls) (vs, m) ii = Inr ((vs', m'), ii @ (length vs # js))"
      using r(1) None run by (simp add: Let_def)
    moreover have "map ((!) vs') (length vs # js) = corner_keys dls fi li (l # ls)"
      using mp new by (simp add: corner_keys_Cons)
    moreover have "\<forall>j \<in> set (length vs # js). j < length vs'"
      using bd new by simp
    moreover have "set vs' = set vs \<union> set (corner_keys dls fi li (l # ls))"
      using set_snoc_Un[OF st] by (simp add: corner_keys_Cons)
    moreover have "\<exists>new. vs' = vs @ new" using new by blast
    ultimately show ?thesis using ok' by blast
  next
    case (Some vi)
    with dedup_ok_lookup[OF Cons.prems(1), of ?k vi] have vi: "vi < length vs" "vs ! vi = ?k"
      by simp_all
    from Cons.IH[OF Cons.prems(1) r(2), of "ii @ [vi]"]
    obtain vs' m' js where
      run: "loops_loop dls fi (Suc li) ls (vs, m) (ii @ [vi]) = Inr ((vs', m'), (ii @ [vi]) @ js)"
      and ok': "dedup_ok (vs', m')" and pre: "\<exists>new. vs' = vs @ new"
      and st: "set vs' = set vs \<union> set (corner_keys dls fi (Suc li) ls)"
      and mp: "map ((!) vs') js = corner_keys dls fi (Suc li) ls"
      and bd: "\<forall>j \<in> set js. j < length vs'"
      by blast
    from pre obtain new where new: "vs' = vs @ new" by auto
    have "loops_loop dls fi li (l # ls) (vs, m) ii = Inr ((vs', m'), ii @ (vi # js))"
      using r(1) Some run by (simp add: Let_def)
    moreover have "map ((!) vs') (vi # js) = corner_keys dls fi li (l # ls)"
      using mp new vi by (simp add: corner_keys_Cons nth_append)
    moreover have "\<forall>j \<in> set (vi # js). j < length vs'"
      using bd new vi by simp
    moreover have "set vs' = set vs \<union> set (corner_keys dls fi li (l # ls))"
    proof -
      from vi have "?k \<in> set vs" by (metis nth_mem)
      from set_mem_Un[OF this st] show ?thesis by (simp add: corner_keys_Cons)
    qed
    ultimately show ?thesis using ok' pre by blast
  qed
qed

lemma faces_loop_inv:
  assumes "dedup_ok (vs, m)" "\<forall>f \<in> set fs. index f * 3 + length (loops f) \<le> length dls"
  shows "\<exists>vs' m' iis. faces_loop dls fs (vs, m) indices = Inr ((vs', m'), indices @ iis) \<and>
           dedup_ok (vs', m') \<and> (\<exists>new. vs' = vs @ new) \<and>
           set vs' = set vs \<union> set (concat (map (face_keys dls) fs)) \<and>
           map (map ((!) vs')) iis = map (face_keys dls) fs \<and>
           (\<forall>ii \<in> set iis. \<forall>j \<in> set ii. j < length vs')"
  using assms
proof (induction fs arbitrary: vs m indices)
  case Nil
  then show ?case by simp
next
  case (Cons f fs)
  from Cons.prems(2) have r: "index f * 3 + 0 + length (loops f) \<le> length dls"
    and rs: "\<forall>f \<in> set fs. index f * 3 + length (loops f) \<le> length dls"
    by simp_all
  from loops_loop_inv[OF Cons.prems(1) r, of "[]", unfolded append_Nil]
  obtain vs1 m1 js where
    run1: "loops_loop dls (index f) 0 (loops f) (vs, m) [] = Inr ((vs1, m1), js)"
    and ok1: "dedup_ok (vs1, m1)" and pre1: "\<exists>new. vs1 = vs @ new"
    and st1: "set vs1 = set vs \<union> set (face_keys dls f)"
    and mp1: "map ((!) vs1) js = face_keys dls f"
    and bd1: "\<forall>j \<in> set js. j < length vs1"
    unfolding face_keys_def by blast
  from Cons.IH[OF ok1 rs, of "indices @ [js]"]
  obtain vs' m' iis where
    run: "faces_loop dls fs (vs1, m1) (indices @ [js]) = Inr ((vs', m'), (indices @ [js]) @ iis)"
    and ok': "dedup_ok (vs', m')" and pre: "\<exists>new. vs' = vs1 @ new"
    and st: "set vs' = set vs1 \<union> set (concat (map (face_keys dls) fs))"
    and mp: "map (map ((!) vs')) iis = map (face_keys dls) fs"
    and bd: "\<forall>ii \<in> set iis. \<forall>j \<in> set ii. j < length vs'"
    by blast
  from pre obtain new where new: "vs' = vs1 @ new" by auto
  have "faces_loop dls (f # fs) (vs, m) indices = Inr ((vs', m'), indices @ (js # iis))"
    using run1 run by (simp add: bindE_def)
  moreover have "map ((!) vs') js = face_keys dls f"
  proof -
    have "map ((!) vs') js = map ((!) vs1) js"
      using bd1 new by (simp add: nth_append)
    with mp1 show ?thesis by simp
  qed
  then have "map (map ((!) vs')) (js # iis) = map (face_keys dls) (f # fs)"
    using mp by simp
  moreover have "\<forall>ii \<in> set (js # iis). \<forall>j \<in> set ii. j < length vs'"
    using bd bd1 new by auto
  moreover have "set vs' = set vs \<union> set (concat (map (face_keys dls) (f # fs)))"
    using set_Un_assoc'[OF st st1] by simp
  moreover have "\<exists>new. vs' = vs @ new" using pre1 new by auto
  ultimately show ?case using ok' by blast
qed


lemma length_corner_keys: "length (corner_keys dls fi li ls) = length ls"
  by (simp add: corner_keys_def)

lemma length_face_keys: "length (face_keys dls f) = length (loops f)"
  by (simp add: face_keys_def length_corner_keys)

lemma face_keys_nth:
  "c < length (loops f) \<Longrightarrow> face_keys dls f ! c = corner_tuple dls f c"
  by (simp add: face_keys_def corner_keys_def nth_enumerate_eq make_vtx_def corner_tuple_def)

lemma corner_tuple_eq:
  "(corner_tuple dls f c = corner_tuple dls f' c') =
     (vert_index (loops f ! c) = vert_index (loops f' ! c') \<and>
      vert_co (loops f ! c) = vert_co (loops f' ! c') \<and>
      normal (dls ! (index f * 3 + c)) = normal (dls ! (index f' * 3 + c')) \<and>
      tangent (dls ! (index f * 3 + c)) = tangent (dls ! (index f' * 3 + c')) \<and>
      normalized (bitangent (dls ! (index f * 3 + c))) =
        normalized (bitangent (dls ! (index f' * 3 + c'))) \<and>
      uv (loops f ! c) = uv (loops f' ! c'))"
  by (simp add: corner_tuple_def prod_eq_iff)

lemma set_nested:
  "set (concat xss) = {xss ! i ! c | i c. i < length xss \<and> c < length (xss ! i)}"
proof (intro set_eqI iffI)
  fix x assume "x \<in> set (concat xss)"
  then obtain xs where "xs \<in> set xss" "x \<in> set xs" by auto
  then obtain i c where "i < length xss" "xss ! i = xs" "c < length xs" "xs ! c = x"
    by (metis in_set_conv_nth)
  then show "x \<in> {xss ! i ! c | i c. i < length xss \<and> c < length (xss ! i)}" by blast
next
  fix x assume "x \<in> {xss ! i ! c | i c. i < length xss \<and> c < length (xss ! i)}"
  then obtain i c where "i < length xss" "c < length (xss ! i)" "x = xss ! i ! c" by blast
  then have "xss ! i \<in> set xss" "x \<in> set (xss ! i)" by simp_all
  then show "x \<in> set (concat xss)" by auto
qed

lemma set_face_keys:
  "set (concat (map (face_keys dls) faces)) =
     {corner_tuple dls (faces ! f) c | f c. f < length faces \<and> c < length (loops (faces ! f))}"
proof -
  have "{map (face_keys dls) faces ! i ! c | i c.
          i < length (map (face_keys dls) faces) \<and> c < length (map (face_keys dls) faces ! i)} =
        {corner_tuple dls (faces ! f) c | f c. f < length faces \<and> c < length (loops (faces ! f))}"
    (is "?A = ?B")
  proof (intro set_eqI iffI)
    fix x assume "x \<in> ?A"
    then obtain i c where h: "i < length faces" "c < length (face_keys dls (faces ! i))"
      "x = face_keys dls (faces ! i) ! c" by auto
    then have "c < length (loops (faces ! i))" by (simp add: length_face_keys)
    with h show "x \<in> ?B" using face_keys_nth[of c "faces ! i" dls] by blast
  next
    fix x assume "x \<in> ?B"
    then obtain f c where h: "f < length faces" "c < length (loops (faces ! f))"
      "x = corner_tuple dls (faces ! f) c" by blast
    then have "x = map (face_keys dls) faces ! f ! c"
      "c < length (map (face_keys dls) faces ! f)"
      by (simp_all add: face_keys_nth length_face_keys)
    with h(1) show "x \<in> ?A" by force
  qed
  then show ?thesis by (simp only: set_nested)
qed

text \<open>
  C1. When every corner has its loop in the mesh copy, deduplication succeeds. The
  output vertices are pairwise different and as many as there are distinct key tuples
  among the corners; every face becomes a list of as many indices as it has corners,
  each inside the vertex list and pointing at the tuple of its corner: the index and
  position of the source vertex, the normal, tangent and normalised bitangent of the
  loop, and the texture coordinate with \<open>v\<close> flipped. Two corners receive the same index
  exactly when they agree in all six of these, so corners of different source vertices
  are never merged.
\<close>

theorem dedup_vertices_correct:
  assumes "\<forall>f \<in> set faces. index f * 3 + length (loops f) \<le> length dls"
  shows "\<exists>vertices indices.
           dedup_vertices dls faces = Inr (vertices, indices) \<and>
           distinct vertices \<and>
           length vertices =
             card {corner_tuple dls (faces ! f) c | f c.
                     f < length faces \<and> c < length (loops (faces ! f))} \<and>
           length indices = length faces \<and>
           (\<forall>f c. f < length faces \<and> c < length (loops (faces ! f)) \<longrightarrow>
              length (indices ! f) = length (loops (faces ! f)) \<and>
              indices ! f ! c < length vertices \<and>
              vertices ! (indices ! f ! c) =
                (vert_index (loops (faces ! f) ! c), vert_co (loops (faces ! f) ! c),
                 normal (dls ! (index (faces ! f) * 3 + c)),
                 tangent (dls ! (index (faces ! f) * 3 + c)),
                 normalized (bitangent (dls ! (index (faces ! f) * 3 + c))),
                 (fst (uv (loops (faces ! f) ! c)), 1 - snd (uv (loops (faces ! f) ! c))))) \<and>
           (\<forall>f f' c c'. f < length faces \<and> f' < length faces \<and>
                c < length (loops (faces ! f)) \<and> c' < length (loops (faces ! f')) \<longrightarrow>
              ((indices ! f ! c = indices ! f' ! c') =
                 (vert_index (loops (faces ! f) ! c) = vert_index (loops (faces ! f') ! c') \<and>
                  vert_co (loops (faces ! f) ! c) = vert_co (loops (faces ! f') ! c') \<and>
                  normal (dls ! (index (faces ! f) * 3 + c)) =
                    normal (dls ! (index (faces ! f') * 3 + c')) \<and>
                  tangent (dls ! (index (faces ! f) * 3 + c)) =
                    tangent (dls ! (index (faces ! f') * 3 + c')) \<and>
                  normalized (bitangent (dls ! (index (faces ! f) * 3 + c))) =
                    normalized (bitangent (dls ! (index (faces ! f') * 3 + c'))) \<and>
                  uv (loops (faces ! f) ! c) = uv (loops (faces ! f') ! c'))) \<and>
              (vert_index (loops (faces ! f) ! c) \<noteq> vert_index (loops (faces ! f') ! c') \<longrightarrow>
                 indices ! f ! c \<noteq> indices ! f' ! c'))"
proof -
  have ok: "dedup_ok ([] :: vtx list, Map.empty)" by (simp add: dedup_ok_def)
  from faces_loop_inv[OF ok assms, of "[]", unfolded append_Nil]
  obtain vs m iis where run: "faces_loop dls faces ([], Map.empty) [] = Inr ((vs, m), iis)"
    and ok': "dedup_ok (vs, m)"
    and st: "set vs = set [] \<union> set (concat (map (face_keys dls) faces))"
    and mp: "map (map ((!) vs)) iis = map (face_keys dls) faces"
    and bd: "\<forall>ii \<in> set iis. \<forall>j \<in> set ii. j < length vs"
    by blast
  have d: "distinct vs" by (rule dedup_ok_distinct[OF ok'])
  have r: "dedup_vertices dls faces = Inr (vs, iis)"
    using run by (simp add: dedup_vertices_def bindE_def)
  have s: "set vs = {corner_tuple dls (faces ! f) c | f c.
                       f < length faces \<and> c < length (loops (faces ! f))}"
    using st by (simp only: set_face_keys) simp
  have n: "length vs = card {corner_tuple dls (faces ! f) c | f c.
                       f < length faces \<and> c < length (loops (faces ! f))}"
    using d s by (metis distinct_card)
  from mp have li: "length iis = length faces" by (metis length_map)
  have pt: "length (iis ! f) = length (loops (faces ! f)) \<and> iis ! f ! c < length vs \<and>
            vs ! (iis ! f ! c) = corner_tuple dls (faces ! f) c"
    if h: "f < length faces" "c < length (loops (faces ! f))" for f c
  proof -
    from mp h(1) li have e: "map ((!) vs) (iis ! f) = face_keys dls (faces ! f)"
      by (metis nth_map)
    then have l: "length (iis ! f) = length (loops (faces ! f))"
      by (metis length_map length_face_keys)
    with h(2) e have k: "vs ! (iis ! f ! c) = face_keys dls (faces ! f) ! c"
      by (metis nth_map)
    from l h li bd have "iis ! f ! c < length vs" by (metis nth_mem)
    with l k h(2) show ?thesis by (simp add: face_keys_nth)
  qed
  have a1: "\<forall>f c. f < length faces \<and> c < length (loops (faces ! f)) \<longrightarrow>
              length (iis ! f) = length (loops (faces ! f)) \<and>
              iis ! f ! c < length vs \<and>
              vs ! (iis ! f ! c) =
                (vert_index (loops (faces ! f) ! c), vert_co (loops (faces ! f) ! c),
                 normal (dls ! (index (faces ! f) * 3 + c)),
                 tangent (dls ! (index (faces ! f) * 3 + c)),
                 normalized (bitangent (dls ! (index (faces ! f) * 3 + c))),
                 (fst (uv (loops (faces ! f) ! c)), 1 - snd (uv (loops (faces ! f) ! c))))"
  proof (intro allI impI)
    fix f c assume "f < length faces \<and> c < length (loops (faces ! f))"
    then have "length (iis ! f) = length (loops (faces ! f)) \<and> iis ! f ! c < length vs \<and>
            vs ! (iis ! f ! c) = corner_tuple dls (faces ! f) c" using pt by blast
    then show "length (iis ! f) = length (loops (faces ! f)) \<and>
              iis ! f ! c < length vs \<and>
              vs ! (iis ! f ! c) =
                (vert_index (loops (faces ! f) ! c), vert_co (loops (faces ! f) ! c),
                 normal (dls ! (index (faces ! f) * 3 + c)),
                 tangent (dls ! (index (faces ! f) * 3 + c)),
                 normalized (bitangent (dls ! (index (faces ! f) * 3 + c))),
                 (fst (uv (loops (faces ! f) ! c)), 1 - snd (uv (loops (faces ! f) ! c))))"
      by (simp only: corner_tuple_def)
  qed
  have a2: "\<forall>f f' c c'. f < length faces \<and> f' < length faces \<and>
                c < length (loops (faces ! f)) \<and> c' < length (loops (faces ! f')) \<longrightarrow>
              ((iis ! f ! c = iis ! f' ! c') =
                 (vert_index (loops (faces ! f) ! c) = vert_index (loops (faces ! f') ! c') \<and>
                  vert_co (loops (faces ! f) ! c) = vert_co (loops (faces ! f') ! c') \<and>
                  normal (dls ! (index (faces ! f) * 3 + c)) =
                    normal (dls ! (index (faces ! f') * 3 + c')) \<and>
                  tangent (dls ! (index (faces ! f) * 3 + c)) =
                    tangent (dls ! (index (faces ! f') * 3 + c')) \<and>
                  normalized (bitangent (dls ! (index (faces ! f) * 3 + c))) =
                    normalized (bitangent (dls ! (index (faces ! f') * 3 + c'))) \<and>
                  uv (loops (faces ! f) ! c) = uv (loops (faces ! f') ! c'))) \<and>
              (vert_index (loops (faces ! f) ! c) \<noteq> vert_index (loops (faces ! f') ! c') \<longrightarrow>
                 iis ! f ! c \<noteq> iis ! f' ! c')"
  proof (intro allI impI)
    fix f f' c c'
    assume h: "f < length faces \<and> f' < length faces \<and>
                c < length (loops (faces ! f)) \<and> c' < length (loops (faces ! f'))"
    from h pt[of f c] pt[of f' c'] have
      p: "iis ! f ! c < length vs" "vs ! (iis ! f ! c) = corner_tuple dls (faces ! f) c"
      "iis ! f' ! c' < length vs" "vs ! (iis ! f' ! c') = corner_tuple dls (faces ! f') c'"
      by simp_all
    from d p have "(iis ! f ! c = iis ! f' ! c') =
        (corner_tuple dls (faces ! f) c = corner_tuple dls (faces ! f') c')"
      by (metis nth_eq_iff_index_eq)
    then have e: "(iis ! f ! c = iis ! f' ! c') =
                 (vert_index (loops (faces ! f) ! c) = vert_index (loops (faces ! f') ! c') \<and>
                  vert_co (loops (faces ! f) ! c) = vert_co (loops (faces ! f') ! c') \<and>
                  normal (dls ! (index (faces ! f) * 3 + c)) =
                    normal (dls ! (index (faces ! f') * 3 + c')) \<and>
                  tangent (dls ! (index (faces ! f) * 3 + c)) =
                    tangent (dls ! (index (faces ! f') * 3 + c')) \<and>
                  normalized (bitangent (dls ! (index (faces ! f) * 3 + c))) =
                    normalized (bitangent (dls ! (index (faces ! f') * 3 + c'))) \<and>
                  uv (loops (faces ! f) ! c) = uv (loops (faces ! f') ! c'))"
      by (simp only: corner_tuple_eq)
    then show "((iis ! f ! c = iis ! f' ! c') =
                 (vert_index (loops (faces ! f) ! c) = vert_index (loops (faces ! f') ! c') \<and>
                  vert_co (loops (faces ! f) ! c) = vert_co (loops (faces ! f') ! c') \<and>
                  normal (dls ! (index (faces ! f) * 3 + c)) =
                    normal (dls ! (index (faces ! f') * 3 + c')) \<and>
                  tangent (dls ! (index (faces ! f) * 3 + c)) =
                    tangent (dls ! (index (faces ! f') * 3 + c')) \<and>
                  normalized (bitangent (dls ! (index (faces ! f) * 3 + c))) =
                    normalized (bitangent (dls ! (index (faces ! f') * 3 + c'))) \<and>
                  uv (loops (faces ! f) ! c) = uv (loops (faces ! f') ! c'))) \<and>
              (vert_index (loops (faces ! f) ! c) \<noteq> vert_index (loops (faces ! f') ! c') \<longrightarrow>
                 iis ! f ! c \<noteq> iis ! f' ! c')"
      by blast
  qed
  show ?thesis
    by (intro exI[of _ vs] exI[of _ iis] conjI) (rule r, rule d, rule n, rule li, rule a1, rule a2)
qed

theorem dedup_vertices_correct_witness:
  "dedup_vertices example_dls example_faces =
     Inr ([(0, (0, 0, 0), (0, 0, 1), (1, 0, 0), (0, 1, 0), (0, 1)),
           (1, (1, 0, 0), (0, 0, 1), (1, 0, 0), (0, 1, 0), (1, 1)),
           (2, (1, 1, 0), (0, 0, 1), (1, 0, 0), (0, 1, 0), (1, 0)),
           (2, (1, 1, 0), (1, 0, 0), (1, 0, 0), (0, 1, 0), (1, 0)),
           (3, (1, 0, 0), (0, 0, 1), (1, 0, 0), (0, 1, 0), (1, 1))],
          [[0, 1, 2], [0, 3, 4]]) \<and>
   distinct [(0 :: nat, (0 :: real, 0 :: real, 0 :: real), (0 :: real, 0 :: real, 1 :: real),
              (1 :: real, 0 :: real, 0 :: real), (0 :: real, 1 :: real, 0 :: real),
              (0 :: real, 1 :: real)),
             (1, (1, 0, 0), (0, 0, 1), (1, 0, 0), (0, 1, 0), (1, 1)),
             (2, (1, 1, 0), (0, 0, 1), (1, 0, 0), (0, 1, 0), (1, 0)),
             (2, (1, 1, 0), (1, 0, 0), (1, 0, 0), (0, 1, 0), (1, 0)),
             (3, (1, 0, 0), (0, 0, 1), (1, 0, 0), (0, 1, 0), (1, 1))]"
proof -
  have h: "\<forall>f \<in> set example_faces. index f * 3 + length (loops f) \<le> length example_dls"
    by (simp add: example_faces_def example_dls_def)
  from dedup_vertices_correct[OF h]
  obtain vs iis where r: "dedup_vertices example_dls example_faces = Inr (vs, iis)"
    and d: "distinct vs"
    by blast
  have e: "dedup_vertices example_dls example_faces =
     Inr ([(0, (0, 0, 0), (0, 0, 1), (1, 0, 0), (0, 1, 0), (0, 1)),
           (1, (1, 0, 0), (0, 0, 1), (1, 0, 0), (0, 1, 0), (1, 1)),
           (2, (1, 1, 0), (0, 0, 1), (1, 0, 0), (0, 1, 0), (1, 0)),
           (2, (1, 1, 0), (1, 0, 0), (1, 0, 0), (0, 1, 0), (1, 0)),
           (3, (1, 0, 0), (0, 0, 1), (1, 0, 0), (0, 1, 0), (1, 1))],
          [[0, 1, 2], [0, 3, 4]])"
    by (simp add: dedup_vertices_def bindE_def example_dls_def example_dl_def example_faces_def
        example_loop_def make_vtx_def normalized_def numeral_eq_Suc Let_def)
  from r e have "vs = [(0, (0, 0, 0), (0, 0, 1), (1, 0, 0), (0, 1, 0), (0, 1)),
           (1, (1, 0, 0), (0, 0, 1), (1, 0, 0), (0, 1, 0), (1, 1)),
           (2, (1, 1, 0), (0, 0, 1), (1, 0, 0), (0, 1, 0), (1, 0)),
           (2, (1, 1, 0), (1, 0, 0), (1, 0, 0), (0, 1, 0), (1, 0)),
           (3, (1, 0, 0), (0, 0, 1), (1, 0, 0), (0, 1, 0), (1, 1))]" by simp
  with d e show ?thesis by simp
qed

subsection \<open>Weight packing\<close>

lemma pack_loop_Inr:
  "\<forall>v \<in> set vs. pack v = Inr (r v) \<Longrightarrow> pack_loop pack vs pw = Inr (pw @ concat (map r vs))"
  by (induction vs arbitrary: pw) (simp_all add: bindE_def)

lemma pack_vertex2_two:
  assumes "vi < length verts" "verts ! vi = [(k0, w0), (k1, w1)]" "w0 + w1 \<noteq> 0"
  shows "pack_vertex2 verts (vi, co, no, ta, bi, tx) =
           Inr ([U16 k0, U16 k1] @ putf_fff co @ putf_fff no @ putf_fff ta @ putf_fff bi @
                [F32 (1 - w0 / (w0 + w1))] @ putf_ff tx)"
  using assms by (simp add: pack_vertex2_def vert_weights_def bindE_def)

lemma pack_vertex2_two_zero:
  assumes "vi < length verts" "verts ! vi = [(k0, w0), (k1, w1)]" "w0 + w1 = 0"
  shows "pack_vertex2 verts (vi, co, no, ta, bi, tx) = Inl ZeroDivisionError"
  using assms by (simp add: pack_vertex2_def vert_weights_def bindE_def)

lemma pack_vertex2_one:
  assumes "vi < length verts" "verts ! vi = [(k, w)]"
  shows "pack_vertex2 verts (vi, co, no, ta, bi, tx) =
           Inr ([U16 k, U16 k] @ putf_fff co @ putf_fff no @ putf_fff ta @ putf_fff bi @
                [F32 0] @ putf_ff tx)"
  using assms by (simp add: pack_vertex2_def vert_weights_def bindE_def)

lemma pack_vertices_multi:
  assumes "vwmx_loop verts 0 \<noteq> 1" "\<forall>v \<in> set vertices. pack_vertex2 verts v = Inr (r v)"
  shows "snd (pack_vertices verts vertices) =
           Inr ([U32 0x240e3300, U32 (length vertices)] @ concat (map r vertices))"
  using assms(1) pack_loop_Inr[OF assms(2)] by (simp add: pack_vertices_def Let_def)

text \<open>
  C2, as stated, fails for a vertex whose two weights sum to zero: the quotient
  \<open>w0 / (w0 + w1)\<close> raises \<open>ZeroDivisionError\<close> and nothing is emitted.
\<close>

theorem two_influences_zero_sum_raises:
  "pack_vertices [[(5, 0), (9, 0)]]
     [(0, (1, 2, 3), (0, 0, 1), (1, 0, 0), (0, 1, 0), (1 / 2, 1 / 2))] =
   ([], Inl ZeroDivisionError)"
  by (simp add: pack_vertices_def pack_vertex2_def vert_weights_def bindE_def)

text \<open>
  C2, amended. On the multi-influence path a vertex with exactly two influences whose
  weights do not sum to zero is written as the two bone indices in iteration order,
  the position, normal, tangent and bitangent, the blend factor \<open>1 - w0 / (w0 + w1)\<close>
  with \<open>w0\<close> the weight met first, and the texture coordinate; a vertex with exactly
  one influence is written with that bone index twice and the blend factor 0. The chunk
  is the header followed by the vertex records in order.
\<close>

theorem blend_factor_of_two_influences:
  assumes "vi < length verts"
  shows "(verts ! vi = [(k0, w0), (k1, w1)] \<and> w0 + w1 \<noteq> 0 \<longrightarrow>
            pack_vertex2 verts (vi, co, no, ta, bi, tx) =
              Inr ([U16 k0, U16 k1] @ putf_fff co @ putf_fff no @ putf_fff ta @ putf_fff bi @
                   [F32 (1 - w0 / (w0 + w1))] @ putf_ff tx)) \<and>
         (verts ! vi = [(k, w)] \<longrightarrow>
            pack_vertex2 verts (vi, co, no, ta, bi, tx) =
              Inr ([U16 k, U16 k] @ putf_fff co @ putf_fff no @ putf_fff ta @ putf_fff bi @
                   [F32 0] @ putf_ff tx)) \<and>
         (vwmx_loop verts 0 \<noteq> 1 \<and> (\<forall>v \<in> set vertices. pack_vertex2 verts v = Inr (r v)) \<longrightarrow>
            snd (pack_vertices verts vertices) =
              Inr ([U32 0x240e3300, U32 (length vertices)] @ concat (map r vertices)))"
  using assms pack_vertex2_two[OF assms] pack_vertex2_one[OF assms] pack_vertices_multi
  by blast

theorem blend_factor_of_two_influences_witness:
  "pack_vertex2 [[(5, 3 / 10), (9, 7 / 10)], [(4, 1)]]
       (0, (1, 2, 3), (0, 0, 1), (1, 0, 0), (0, 1, 0), (1 / 2, 1 / 2)) =
     Inr [U16 5, U16 9, F32 1, F32 2, F32 3, F32 0, F32 0, F32 1, F32 1, F32 0, F32 0,
          F32 0, F32 1, F32 0, F32 (7 / 10), F32 (1 / 2), F32 (1 / 2)] \<and>
   pack_vertex2 [[(5, 3 / 10), (9, 7 / 10)], [(4, 1)]]
       (1, (1, 2, 3), (0, 0, 1), (1, 0, 0), (0, 1, 0), (1 / 2, 1 / 2)) =
     Inr [U16 4, U16 4, F32 1, F32 2, F32 3, F32 0, F32 0, F32 1, F32 1, F32 0, F32 0,
          F32 0, F32 1, F32 0, F32 0, F32 (1 / 2), F32 (1 / 2)]"
proof -
  let ?verts = "[[(5, 3 / 10), (9, 7 / 10)], [(4, 1)]] :: weights list"
  have h0: "0 < length ?verts" and h1: "1 < length ?verts" by simp_all
  from blend_factor_of_two_influences[OF h0,
      of 5 "3 / 10" 9 "7 / 10" "(1, 2, 3)" "(0, 0, 1)" "(1, 0, 0)" "(0, 1, 0)" "(1 / 2, 1 / 2)"]
  have a: "pack_vertex2 ?verts (0, (1, 2, 3), (0, 0, 1), (1, 0, 0), (0, 1, 0), (1 / 2, 1 / 2)) =
     Inr [U16 5, U16 9, F32 1, F32 2, F32 3, F32 0, F32 0, F32 1, F32 1, F32 0, F32 0,
          F32 0, F32 1, F32 0, F32 (7 / 10), F32 (1 / 2), F32 (1 / 2)]"
    by (simp add: putf_fff_def putf_ff_def)
  from blend_factor_of_two_influences[OF h1,
      of _ _ _ _ "(1, 2, 3)" "(0, 0, 1)" "(1, 0, 0)" "(0, 1, 0)" "(1 / 2, 1 / 2)" 4 1]
  have b: "pack_vertex2 ?verts (1, (1, 2, 3), (0, 0, 1), (1, 0, 0), (0, 1, 0), (1 / 2, 1 / 2)) =
     Inr [U16 4, U16 4, F32 1, F32 2, F32 3, F32 0, F32 0, F32 1, F32 1, F32 0, F32 0,
          F32 0, F32 1, F32 0, F32 0, F32 (1 / 2), F32 (1 / 2)]"
    by (simp add: putf_fff_def putf_ff_def)
  from a b show ?thesis by simp
qed


section \<open>Properties of the motion container index\<close>

lemma index_loop_correct:
  assumes "\<forall>c \<in> set cs. wf_clip c" "exact_on skp cs rest"
  shows "index_loop skp (length cs)
           \<lparr>pr_data = pre @ concat (map encode_clip cs) @ rest, pr_offs = length pre\<rparr> a =
         Inr (\<lparr>pr_data = pre @ concat (map encode_clip cs) @ rest,
               pr_offs = length pre + length (concat (map encode_clip cs))\<rparr>,
              index_spec (length pre) cs a)"
  using assms
proof (induction cs arbitrary: pre a)
  case Nil
  show ?case by simp
next
  case (Cons c cs)
  let ?tl = "concat (map encode_clip cs) @ rest"
  let ?kf = "keyframes c @ ?tl"
  let ?D = "pre @ clip_name c @ CHR 0x00 # le_bytes 4 (start_frame c) @ le_bytes 4 (end_frame c) @ ?kf"
  from Cons.prems(1) have wf: "CHR 0x00 \<notin> set (clip_name c)" "start_frame c < 2 ^ 32"
    "end_frame c < 2 ^ 32" and wfs: "\<forall>c \<in> set cs. wf_clip c"
    by (simp_all add: wf_clip_def)
  from Cons.prems(2) have ex: "skp (clip_body c @ ?tl) 0 = Inr (length (clip_body c))"
    and exs: "exact_on skp cs rest" by simp_all
  have D: "pre @ concat (map encode_clip (c # cs)) @ rest = ?D"
    by (simp add: encode_clip_def clip_body_def)
  let ?pre2 = "pre @ clip_name c @ [CHR 0x00]"
  have D2: "?D = ?pre2 @ le_bytes 4 (start_frame c) @ le_bytes 4 (end_frame c) @ ?kf" by simp
  have g1: "gets \<lparr>pr_data = ?D, pr_offs = length pre\<rparr> =
      Inr (clip_name c, \<lparr>pr_data = ?D, pr_offs = length ?pre2\<rparr>)"
    using gets_at[OF wf(1), of pre "le_bytes 4 (start_frame c) @ le_bytes 4 (end_frame c) @ ?kf"]
    by simp
  have g2: "getf_II \<lparr>pr_data = ?D, pr_offs = length ?pre2\<rparr> =
      Inr ((start_frame c, end_frame c), \<lparr>pr_data = ?D, pr_offs = length ?pre2 + 8\<rparr>)"
    using getf_II_at[OF wf(2,3), of ?pre2 ?kf] unfolding D2 by simp
  have g3: "getv (set_offset \<lparr>pr_data = ?D, pr_offs = length ?pre2 + 8\<rparr> (length ?pre2)) =
      clip_body c @ ?tl"
    unfolding D2 by (simp add: getv_def set_offset_def clip_body_def)
  let ?pre3 = "pre @ encode_clip c"
  have len3: "length ?pre3 = length ?pre2 + length (clip_body c)"
    by (simp add: encode_clip_def)
  have D3: "?D = ?pre3 @ concat (map encode_clip cs) @ rest"
    by (simp add: encode_clip_def clip_body_def)
  have step: "index_loop skp (length (c # cs)) \<lparr>pr_data = ?D, pr_offs = length pre\<rparr> a =
      index_loop skp (length cs) \<lparr>pr_data = ?D, pr_offs = length ?pre3\<rparr>
        (a(clip_name c \<mapsto> (length pre, int (end_frame c) - int (start_frame c))))"
    using g1 g2 g3 ex len3
    by (simp add: bindE_def Let_def offset_def skip_def set_offset_def del: length_append)
  have "index_loop skp (length cs) \<lparr>pr_data = ?D, pr_offs = length ?pre3\<rparr>
        (a(clip_name c \<mapsto> (length pre, int (end_frame c) - int (start_frame c)))) =
      Inr (\<lparr>pr_data = ?D, pr_offs = length ?pre3 + length (concat (map encode_clip cs))\<rparr>,
           index_spec (length ?pre3) cs
             (a(clip_name c \<mapsto> (length pre, int (end_frame c) - int (start_frame c)))))"
    using Cons.IH[OF wfs exs, of ?pre3] unfolding D3 .
  with step show ?case unfolding D by simp
qed

lemma index_spec_other:
  "name \<notin> clip_name ` set cs \<Longrightarrow> index_spec off cs a name = a name"
  by (induction cs arbitrary: off a) auto

lemma dom_index_spec: "dom (index_spec off cs a) = dom a \<union> clip_name ` set cs"
  by (induction cs arbitrary: off a) auto

lemma index_spec_last:
  assumes "i < length cs" "\<forall>j. i < j \<and> j < length cs \<longrightarrow> clip_name (cs ! j) \<noteq> clip_name (cs ! i)"
  shows "index_spec off cs a (clip_name (cs ! i)) =
     Some (off + length (concat (map encode_clip (take i cs))),
           int (end_frame (cs ! i)) - int (start_frame (cs ! i)))"
  using assms
proof (induction cs arbitrary: off a i)
  case Nil
  then show ?case by simp
next
  case (Cons c cs)
  show ?case
  proof (cases i)
    case 0
    have "clip_name c \<notin> clip_name ` set cs"
    proof
      assume "clip_name c \<in> clip_name ` set cs"
      then obtain j where "j < length cs" "clip_name (cs ! j) = clip_name c"
        by (auto simp: in_set_conv_nth)
      with Cons.prems(2)[rule_format, of "Suc j"] 0 show False by simp
    qed
    with 0 show ?thesis by (simp add: index_spec_other)
  next
    case (Suc k)
    with Cons.prems(1) have k: "k < length cs" by simp
    have later: "\<forall>j. k < j \<and> j < length cs \<longrightarrow> clip_name (cs ! j) \<noteq> clip_name (cs ! k)"
    proof (intro allI impI)
      fix j assume "k < j \<and> j < length cs"
      with Cons.prems(2)[rule_format, of "Suc j"] Suc show "clip_name (cs ! j) \<noteq> clip_name (cs ! k)"
        by simp
    qed
    from Cons.IH[OF k later] Suc show ?thesis by (simp add: add.assoc)
  qed
qed

text \<open>
  C5. On a well-formed container (names without null bytes, frame numbers and clip count
  below \<open>2^32\<close>, the length calculator exact at each clip body) indexing succeeds, the
  cursor ends after the last clip, the index holds exactly the clip names, and the
  entry of each name holds the offset of the clip's name and \<open>end_frame - start_frame\<close> as
  recorded in the header of the last clip of that name. The keyframe payload is only
  passed to the length calculator.
\<close>

theorem index_animations_frame_counts:
  assumes "\<forall>c \<in> set cs. wf_clip c" "length cs < 2 ^ 32" "exact_on skp cs rest"
  shows "\<exists>pr' animations.
     index_animations skp (PackedReader (encode_container cs @ rest)) = Inr (pr', animations) \<and>
     offset pr' = length (encode_container cs) \<and>
     dom animations = clip_name ` set cs \<and>
     (\<forall>i < length cs.
        (\<forall>j. i < j \<and> j < length cs \<longrightarrow> clip_name (cs ! j) \<noteq> clip_name (cs ! i)) \<longrightarrow>
        animations (clip_name (cs ! i)) =
          Some (clip_offset cs i, int (end_frame (cs ! i)) - int (start_frame (cs ! i))))"
proof -
  let ?body = "concat (map encode_clip cs)"
  let ?D = "le_bytes 4 (length cs) @ ?body @ rest"
  have g: "getf_I \<lparr>pr_data = [] @ ?D, pr_offs = length ([] :: buffer)\<rparr> =
      Inr (length cs, \<lparr>pr_data = [] @ ?D, pr_offs = length ([] :: buffer) + 4\<rparr>)"
    by (rule getf_I_at[OF assms(2)])
  have l: "index_loop skp (length cs)
      \<lparr>pr_data = le_bytes 4 (length cs) @ ?body @ rest, pr_offs = length (le_bytes 4 (length cs))\<rparr>
      Map.empty =
    Inr (\<lparr>pr_data = le_bytes 4 (length cs) @ ?body @ rest,
          pr_offs = length (le_bytes 4 (length cs)) + length ?body\<rparr>,
         index_spec (length (le_bytes 4 (length cs))) cs Map.empty)"
    by (rule index_loop_correct[OF assms(1,3)])
  have run: "index_animations skp (PackedReader (encode_container cs @ rest)) =
    Inr (\<lparr>pr_data = ?D, pr_offs = 4 + length ?body\<rparr>, index_spec 4 cs Map.empty)"
    using g l by (simp add: index_animations_def PackedReader_def encode_container_def bindE_def)
  have "\<forall>i < length cs.
        (\<forall>j. i < j \<and> j < length cs \<longrightarrow> clip_name (cs ! j) \<noteq> clip_name (cs ! i)) \<longrightarrow>
        index_spec 4 cs Map.empty (clip_name (cs ! i)) =
          Some (clip_offset cs i, int (end_frame (cs ! i)) - int (start_frame (cs ! i)))"
    by (simp add: index_spec_last clip_offset_def)
  with run show ?thesis
    by (simp add: offset_def encode_container_def dom_index_spec)
qed


theorem index_animations_frame_counts_witness:
  "\<exists>pr' animations.
     index_animations example_skip (PackedReader (encode_container example_clips @ [])) =
       Inr (pr', animations) \<and>
     animations ''walk'' = Some (4, 30) \<and>
     animations ''run'' = Some (20, 15) \<and>
     animations ''idle'' = Some (33, 300)"
proof -
  have wf: "\<forall>c \<in> set example_clips. wf_clip c"
    by (simp add: example_clips_def wf_clip_def)
  have len: "length example_clips < 2 ^ 32"
    by (simp add: example_clips_def)
  have ex: "exact_on example_skip example_clips []"
    by (simp add: example_clips_def example_skip_def clip_body_def encode_clip_def nth_append)
  from index_animations_frame_counts[OF wf len ex]
  obtain pr' a where run:
    "index_animations example_skip (PackedReader (encode_container example_clips @ [])) =
       Inr (pr', a)"
    and fr: "\<forall>i < length example_clips.
        (\<forall>j. i < j \<and> j < length example_clips \<longrightarrow>
             clip_name (example_clips ! j) \<noteq> clip_name (example_clips ! i)) \<longrightarrow>
        a (clip_name (example_clips ! i)) =
          Some (clip_offset example_clips i,
                int (end_frame (example_clips ! i)) - int (start_frame (example_clips ! i)))"
    by blast
  have d: "distinct (map clip_name example_clips)"
    by (simp add: example_clips_def)
  have later: "clip_name (example_clips ! j) \<noteq> clip_name (example_clips ! i)"
    if "i < j" "j < length example_clips" for i j
  proof -
    from that have b: "i < length (map clip_name example_clips)"
      "j < length (map clip_name example_clips)" and ne: "j \<noteq> i" by simp_all
    from ne nth_eq_iff_index_eq[OF d b(2) b(1)]
    have "map clip_name example_clips ! j \<noteq> map clip_name example_clips ! i" by blast
    with that show ?thesis by simp
  qed
  have g: "a (clip_name (example_clips ! i)) =
          Some (clip_offset example_clips i,
                int (end_frame (example_clips ! i)) - int (start_frame (example_clips ! i)))"
    if "i < length example_clips" for i
    using fr that later by blast
  have "a ''walk'' = Some (4, 30)"
    using g[of 0] by (simp add: example_clips_def clip_offset_def)
  moreover have "a ''run'' = Some (20, 15)"
    using g[of 1] by (simp add: example_clips_def clip_offset_def encode_clip_def clip_body_def)
  moreover have "a ''idle'' = Some (33, 300)"
    using g[of 2] by (simp add: example_clips_def clip_offset_def encode_clip_def clip_body_def)
  ultimately show ?thesis using run by blast
qed


section \<open>Properties of the object decoder\<close>

subsection \<open>Smoothing groups\<close>

lemma track_append:
  "track l (xs @ ys) =
     (fst (track (fst (track l xs)) ys), snd (track l xs) \<or> snd (track (fst (track l xs)) ys))"
  by (induction xs arbitrary: l) auto

lemma track_changes: "snd (track (Some x) xs) = changes (x # xs)"
  by (induction xs arbitrary: x) auto

lemma track_None_changes: "snd (track None xs) = changes xs"
  by (cases xs) (simp_all add: track_changes)

lemma track_last: "fst (track l xs) = (if xs = [] then l else Some (last xs))"
  by (induction xs arbitrary: l) auto

lemma tracked_refl: "tracked e st st []"
  by (simp add: tracked_def)

lemma tracked_trans:
  "tracked e st st1 xs \<Longrightarrow> tracked e st1 st2 ys \<Longrightarrow> tracked e st st2 (xs @ ys)"
  by (auto simp: tracked_def track_append)

lemma same_but_flags_refl: "same_but_flags m m"
  by (simp add: same_but_flags_def)

lemma same_but_flags_trans:
  "same_but_flags m m1 \<Longrightarrow> same_but_flags m1 m2 \<Longrightarrow> same_but_flags m m2"
  by (simp add: same_but_flags_def)


lemma sg_edge_step:
  assumes "sg_edge sg x (edict, m) = (edict1, m1)"
  shows "tracked e (edict, m) (edict1, m1) (if x = e then [sg] else []) \<and>
         same_but_flags m m1 \<and> me_bmfaces m1 = me_bmfaces m"
proof (cases "edict x")
  case None
  with assms have "edict1 = edict(x \<mapsto> sg)" "m1 = m" by (simp_all add: sg_edge_def)
  with None show ?thesis by (auto simp: tracked_def same_but_flags_def)
next
  case (Some y)
  show ?thesis
  proof (cases "y = sg")
    case True
    with Some assms have "edict1 = edict" "m1 = m" by (simp_all add: sg_edge_def)
    with Some True show ?thesis by (auto simp: tracked_def same_but_flags_def)
  next
    case False
    with Some assms have "edict1 = edict(x \<mapsto> sg)"
      "m1 = m\<lparr>me_seam := (me_seam m)(x := True), me_edge_smooth := (me_edge_smooth m)(x := False)\<rparr>"
      by (simp_all add: sg_edge_def)
    with Some False show ?thesis by (auto simp: tracked_def same_but_flags_def)
  qed
qed

lemma sg_edge_fold:
  assumes "fold (sg_edge sg) es (edict, m) = (edict', m')"
  shows "tracked e (edict, m) (edict', m') (map (\<lambda>x. sg) (filter (\<lambda>x. x = e) es)) \<and>
         same_but_flags m m' \<and> me_bmfaces m' = me_bmfaces m"
  using assms
proof (induction es arbitrary: edict m)
  case Nil
  then show ?case by (simp add: tracked_refl same_but_flags_refl)
next
  case (Cons x es)
  obtain edict1 m1 where s1: "sg_edge sg x (edict, m) = (edict1, m1)"
    by (cases "sg_edge sg x (edict, m)")
  with Cons.prems have r: "fold (sg_edge sg) es (edict1, m1) = (edict', m')" by simp
  from sg_edge_step[OF s1, of e] have
    a: "tracked e (edict, m) (edict1, m1) (if x = e then [sg] else [])"
    and b: "same_but_flags m m1" and c: "me_bmfaces m1 = me_bmfaces m" by simp_all
  from Cons.IH[OF r] have
    a': "tracked e (edict1, m1) (edict', m') (map (\<lambda>x. sg) (filter (\<lambda>x. x = e) es))"
    and b': "same_but_flags m1 m'" and c': "me_bmfaces m' = me_bmfaces m1" by simp_all
  have "map (\<lambda>x. sg) (filter (\<lambda>x. x = e) (x # es)) =
        (if x = e then [sg] else []) @ map (\<lambda>x. sg) (filter (\<lambda>x. x = e) es)" by simp
  with tracked_trans[OF a a'] same_but_flags_trans[OF b b'] c c' show ?case by simp
qed

lemma smooth_range_step:
  assumes "k < length fs"
  shows "smooth_range (Suc k) n (fs[k := set_smooth (fs ! k)]) = smooth_range k (Suc n) fs"
  using assms
  by (auto simp: smooth_range_def list_eq_iff_nth_eq nth_enumerate_eq nth_list_update)

lemma smooth_range_skip:
  assumes "k < length fs" "fs ! k = None"
  shows "smooth_range (Suc k) n fs = smooth_range k (Suc n) fs"
  using assms
  by (auto simp: smooth_range_def list_eq_iff_nth_eq nth_enumerate_eq set_smooth_def le_less Suc_le_eq)

lemma smooth_range_0: "smooth_range k 0 fs = fs"
  by (auto simp: smooth_range_def list_eq_iff_nth_eq nth_enumerate_eq)

lemma edge_visits_Cons:
  "edge_visits (bmf # fs) (sg # sgs) e =
     (case bmf of None \<Rightarrow> [] | Some f \<Rightarrow> map (\<lambda>x. sg) (filter (\<lambda>x. x = e) (face_edges f)))
     @ edge_visits fs sgs e"
  by (simp add: edge_visits_def)

lemma edge_visits_Nil: "edge_visits fs [] e = []"
  by (simp add: edge_visits_def)


lemma sg_face_loop:
  assumes "k + length sgs \<le> length (me_bmfaces m)"
  shows "\<exists>edict' m'. foldE sg_face (enumerate k sgs) (edict, m) = Inr (edict', m') \<and>
     me_bmfaces m' = smooth_range k (length sgs) (me_bmfaces m) \<and> same_but_flags m m' \<and>
     (\<forall>e. tracked e (edict, m) (edict', m') (edge_visits (drop k (me_bmfaces m)) sgs e))"
  using assms
proof (induction sgs arbitrary: k edict m)
  case Nil
  show ?case
    by (simp add: smooth_range_0 same_but_flags_refl tracked_refl edge_visits_Nil)
next
  case (Cons sg sgs)
  let ?bm = "me_bmfaces m"
  from Cons.prems have k: "k < length ?bm" and k': "Suc k + length sgs \<le> length ?bm" by simp_all
  have dr: "drop k ?bm = ?bm ! k # drop (Suc k) ?bm"
    using k by (simp add: Cons_nth_drop_Suc)
  show ?case
  proof (cases "?bm ! k")
    case None
    have s: "sg_face (k, sg) (edict, m) = Inr (edict, m)"
      using k None by (simp add: sg_face_def bmfaces_at_def bindE_def)
    from Cons.IH[OF k', of edict]
    obtain edict' m' where r: "foldE sg_face (enumerate (Suc k) sgs) (edict, m) = Inr (edict', m')"
      and f: "me_bmfaces m' = smooth_range (Suc k) (length sgs) ?bm"
      and sb: "same_but_flags m m'"
      and t: "\<forall>e. tracked e (edict, m) (edict', m') (edge_visits (drop (Suc k) ?bm) sgs e)"
      by blast
    have "foldE sg_face (enumerate k (sg # sgs)) (edict, m) = Inr (edict', m')"
      using s r by (simp add: bindE_def)
    moreover have "me_bmfaces m' = smooth_range k (length (sg # sgs)) ?bm"
      using f smooth_range_skip[OF k None] by simp
    moreover have "\<forall>e. tracked e (edict, m) (edict', m') (edge_visits (drop k ?bm) (sg # sgs) e)"
      using t None by (simp add: dr edge_visits_Cons)
    ultimately show ?thesis using sb by blast
  next
    case (Some f)
    let ?m0 = "m\<lparr>me_bmfaces := ?bm[k := Some (f\<lparr>face_smooth := True\<rparr>)]\<rparr>"
    obtain edict1 m1 where fo: "fold (sg_edge sg) (face_edges f) (edict, ?m0) = (edict1, m1)"
      by (cases "fold (sg_edge sg) (face_edges f) (edict, ?m0)")
    have s: "sg_face (k, sg) (edict, m) = Inr (edict1, m1)"
      using k Some fo by (simp add: sg_face_def bmfaces_at_def bindE_def)
    have e1: "\<And>e. tracked e (edict, ?m0) (edict1, m1)
                 (map (\<lambda>x. sg) (filter (\<lambda>x. x = e) (face_edges f)))"
      and sb1: "same_but_flags ?m0 m1" and bm1: "me_bmfaces m1 = me_bmfaces ?m0"
      using sg_edge_fold[OF fo] by simp_all
    have e1': "tracked e (edict, m) (edict1, m1)
                 (map (\<lambda>x. sg) (filter (\<lambda>x. x = e) (face_edges f)))" for e
      using e1[of e] by (simp add: tracked_def)
    have sb1': "same_but_flags m m1" using sb1 by (simp add: same_but_flags_def)
    have bm1': "me_bmfaces m1 = ?bm[k := set_smooth (?bm ! k)]"
      using bm1 Some by (simp add: set_smooth_def)
    have k1: "Suc k + length sgs \<le> length (me_bmfaces m1)" using k' bm1' by simp
    from Cons.IH[OF k1, of edict1]
    obtain edict' m' where r: "foldE sg_face (enumerate (Suc k) sgs) (edict1, m1) = Inr (edict', m')"
      and f': "me_bmfaces m' = smooth_range (Suc k) (length sgs) (me_bmfaces m1)"
      and sb: "same_but_flags m1 m'"
      and t: "\<forall>e. tracked e (edict1, m1) (edict', m')
                  (edge_visits (drop (Suc k) (me_bmfaces m1)) sgs e)"
      by blast
    have d1: "drop (Suc k) (me_bmfaces m1) = drop (Suc k) ?bm"
      using bm1' by (simp add: drop_update_cancel)
    have "foldE sg_face (enumerate k (sg # sgs)) (edict, m) = Inr (edict', m')"
      using s r by (simp add: bindE_def)
    moreover have "me_bmfaces m' = smooth_range k (length (sg # sgs)) ?bm"
      using f' bm1' smooth_range_step[OF k] by simp
    moreover have "\<forall>e. tracked e (edict, m) (edict', m') (edge_visits (drop k ?bm) (sg # sgs) e)"
    proof
      fix e
      from t[rule_format, of e] d1
      have "tracked e (edict1, m1) (edict', m') (edge_visits (drop (Suc k) ?bm) sgs e)"
        by simp
      from tracked_trans[OF e1' this] Some
      show "tracked e (edict, m) (edict', m') (edge_visits (drop k ?bm) (sg # sgs) e)"
        by (simp add: dr edge_visits_Cons)
    qed
    moreover have "same_but_flags m m'" by (rule same_but_flags_trans[OF sb1' sb])
    ultimately show ?thesis by blast
  qed
qed


lemma length_sg_ids [simp]: "length (sg_ids data) = length data div 4"
  by (simp add: sg_ids_def)

lemma getf_nI_sg:
  "getf_nI (length data div 4) (PackedReader data) =
     Inr (sg_ids data, \<lparr>pr_data = data, pr_offs = 4 * (length data div 4)\<rparr>)"
  by (simp add: getf_nI_def getf_n_def get_bytes_def PackedReader_def bindE_def sg_ids_def)

lemma smooth_range_nth:
  "fi < length fs \<Longrightarrow> smooth_range k n fs ! fi =
     (if k \<le> fi \<and> fi < k + n then set_smooth (fs ! fi) else fs ! fi)"
  by (simp add: smooth_range_def nth_enumerate_eq)

text \<open>
  C4. When the chunk holds no more ids than there are face slots, the loop succeeds.
  Every non-null face with an id is marked smooth; the dictionary holds, for every edge
  of such a face, the id of the last face that visited it; and an edge ends up marked
  as a seam and not smooth exactly when it was so before or some face visited it while
  the id recorded by the previous visit differed from its own.
\<close>

theorem smoothing_groups_mark_seams:
  assumes "length data div 4 \<le> length (me_bmfaces m)"
  shows "\<exists>edict m'.
     foldE sg_face (enumerate 0 (sg_ids data))
       (Map.empty, m\<lparr>me_modifiers := me_modifiers m @ [''XRay: do smoothing groups'']\<rparr>) =
       Inr (edict, m') \<and>
     sg_chunk data m = Inr m' \<and>
     (\<forall>fi f. fi < length (sg_ids data) \<and> me_bmfaces m ! fi = Some f \<longrightarrow>
        me_bmfaces m' ! fi = Some (f\<lparr>face_smooth := True\<rparr>)) \<and>
     (\<forall>e. edict e =
        (if edge_visits (me_bmfaces m) (sg_ids data) e = [] then None
         else Some (last (edge_visits (me_bmfaces m) (sg_ids data) e)))) \<and>
     (\<forall>e. me_seam m' e =
        (me_seam m e \<or> changes (edge_visits (me_bmfaces m) (sg_ids data) e))) \<and>
     (\<forall>e. me_edge_smooth m' e =
        (me_edge_smooth m e \<and> \<not> changes (edge_visits (me_bmfaces m) (sg_ids data) e)))"
proof -
  let ?m0 = "m\<lparr>me_modifiers := me_modifiers m @ [''XRay: do smoothing groups'']\<rparr>"
  let ?sgs = "sg_ids data"
  have len: "0 + length ?sgs \<le> length (me_bmfaces ?m0)" using assms by simp
  from sg_face_loop[OF len, of Map.empty]
  obtain edict m' where r: "foldE sg_face (enumerate 0 ?sgs) (Map.empty, ?m0) = Inr (edict, m')"
    and f: "me_bmfaces m' = smooth_range 0 (length ?sgs) (me_bmfaces ?m0)"
    and t: "\<forall>e. tracked e (Map.empty, ?m0) (edict, m') (edge_visits (drop 0 (me_bmfaces ?m0)) ?sgs e)"
    by blast
  have c: "sg_chunk data m = Inr m'"
    using r getf_nI_sg[of data] by (simp add: sg_chunk_def bindE_def Let_def)
  have a1: "\<forall>fi f. fi < length ?sgs \<and> me_bmfaces m ! fi = Some f \<longrightarrow>
        me_bmfaces m' ! fi = Some (f\<lparr>face_smooth := True\<rparr>)"
  proof (intro allI impI)
    fix fi f assume h: "fi < length ?sgs \<and> me_bmfaces m ! fi = Some f"
    with assms have "fi < length (me_bmfaces m)" by simp
    with h f show "me_bmfaces m' ! fi = Some (f\<lparr>face_smooth := True\<rparr>)"
      by (simp add: smooth_range_nth set_smooth_def)
  qed
  have tr: "tracked e (Map.empty, ?m0) (edict, m') (edge_visits (me_bmfaces m) ?sgs e)" for e
    using t[rule_format, of e] by simp
  have a2: "\<forall>e. edict e =
        (if edge_visits (me_bmfaces m) ?sgs e = [] then None
         else Some (last (edge_visits (me_bmfaces m) ?sgs e)))"
  proof
    fix e show "edict e =
        (if edge_visits (me_bmfaces m) ?sgs e = [] then None
         else Some (last (edge_visits (me_bmfaces m) ?sgs e)))"
      using tr[of e] by (simp add: tracked_def track_last)
  qed
  have a3: "\<forall>e. me_seam m' e = (me_seam m e \<or> changes (edge_visits (me_bmfaces m) ?sgs e))"
  proof
    fix e show "me_seam m' e = (me_seam m e \<or> changes (edge_visits (me_bmfaces m) ?sgs e))"
      using tr[of e] by (simp add: tracked_def track_None_changes)
  qed
  have a4: "\<forall>e. me_edge_smooth m' e =
        (me_edge_smooth m e \<and> \<not> changes (edge_visits (me_bmfaces m) ?sgs e))"
  proof
    fix e show "me_edge_smooth m' e =
        (me_edge_smooth m e \<and> \<not> changes (edge_visits (me_bmfaces m) ?sgs e))"
      using tr[of e] by (simp add: tracked_def track_None_changes)
  qed
  from r c a1 a2 a3 a4 show ?thesis by blast
qed

lemma sg_ids_two:
  "a < 2 ^ 32 \<Longrightarrow> b < 2 ^ 32 \<Longrightarrow> sg_ids (le_bytes 4 a @ le_bytes 4 b) = [a, b]"
  by (simp add: sg_ids_def chop_2 le_nat_u32)

theorem smoothing_groups_mark_seams_witness:
  "(\<exists>m'. sg_chunk (le_bytes 4 1 @ le_bytes 4 2) example_mesh = Inr m' \<and>
          me_seam m' (0, 2) \<and> \<not> me_edge_smooth m' (0, 2) \<and>
          \<not> me_seam m' (0, 1) \<and> me_edge_smooth m' (0, 1)) \<and>
   (\<exists>m'. sg_chunk (le_bytes 4 1 @ le_bytes 4 1) example_mesh = Inr m' \<and>
          \<not> me_seam m' (0, 2) \<and> me_edge_smooth m' (0, 2))"
proof -
  have ids: "sg_ids (le_bytes 4 1 @ le_bytes 4 2) = [1, 2]"
    "sg_ids (le_bytes 4 1 @ le_bytes 4 1) = [1, 1]"
    by (simp_all add: sg_ids_two)
  have h: "length (le_bytes 4 1 @ le_bytes 4 2) div 4 \<le> length (me_bmfaces example_mesh)"
    "length (le_bytes 4 1 @ le_bytes 4 1) div 4 \<le> length (me_bmfaces example_mesh)"
    by (simp_all add: example_mesh_def)
  have v: "edge_visits (me_bmfaces example_mesh) [a, b] (0, 2) = [a, b]"
    "edge_visits (me_bmfaces example_mesh) [a, b] (0, 1) = [a]" for a b
    by (simp_all add: example_mesh_def edge_visits_def face_edges_def mk_edge_def)
  have s: "me_seam example_mesh e = False" "me_edge_smooth example_mesh e = True" for e
    by (simp_all add: example_mesh_def new_mesh_def)
  have c: "changes [1, 2] = True" "changes [1, 1] = False" "changes [1] = False"
    by simp_all
  from smoothing_groups_mark_seams[OF h(1), unfolded ids] obtain m1 where
    r1: "sg_chunk (le_bytes 4 1 @ le_bytes 4 2) example_mesh = Inr m1"
    and se1: "\<forall>e. me_seam m1 e = (me_seam example_mesh e \<or>
        changes (edge_visits (me_bmfaces example_mesh) [1, 2] e))"
    and sm1: "\<forall>e. me_edge_smooth m1 e = (me_edge_smooth example_mesh e \<and>
        \<not> changes (edge_visits (me_bmfaces example_mesh) [1, 2] e))"
    by blast
  from smoothing_groups_mark_seams[OF h(2), unfolded ids] obtain m2 where
    r2: "sg_chunk (le_bytes 4 1 @ le_bytes 4 1) example_mesh = Inr m2"
    and se2: "\<forall>e. me_seam m2 e = (me_seam example_mesh e \<or>
        changes (edge_visits (me_bmfaces example_mesh) [1, 1] e))"
    and sm2: "\<forall>e. me_edge_smooth m2 e = (me_edge_smooth example_mesh e \<and>
        \<not> changes (edge_visits (me_bmfaces example_mesh) [1, 1] e))"
    by blast
  have "me_seam m1 (0, 2)" "\<not> me_edge_smooth m1 (0, 2)" "\<not> me_seam m1 (0, 1)"
    "me_edge_smooth m1 (0, 1)"
    using se1[rule_format, of "(0, 2)"] sm1[rule_format, of "(0, 2)"]
      se1[rule_format, of "(0, 1)"] sm1[rule_format, of "(0, 1)"]
    unfolding v s c by simp_all
  moreover have "\<not> me_seam m2 (0, 2)" "me_edge_smooth m2 (0, 2)"
    using se2[rule_format, of "(0, 2)"] sm2[rule_format, of "(0, 2)"]
    unfolding v s c by simp_all
  ultimately show ?thesis using r1 r2 by blast
qed


subsection \<open>Faces and null placeholders\<close>

lemma faces_step_at:
  assumes "wf_face_record (length (me_verts m)) fr"
  shows "faces_step (\<lparr>pr_data = pre @ encode_u32s fr @ rest, pr_offs = length pre\<rparr>, m) =
     Inr (\<lparr>pr_data = pre @ encode_u32s fr @ rest, pr_offs = length pre + 24\<rparr>,
          m\<lparr>me_bmfaces := me_bmfaces m @ [faces_new (me_bmfaces m) (face_corners fr)]\<rparr>)"
proof -
  from assms have l: "length fr = 6" and r: "list_all (\<lambda>x. x < 2 ^ 32) fr"
    and v: "list_all (\<lambda>vi. vi < length (me_verts m)) (face_corners fr)"
    by (simp_all add: wf_face_record_def)
  from getf_nI_at[OF r, of pre rest] l
  have g: "getf_nI 6 \<lparr>pr_data = pre @ encode_u32s fr @ rest, pr_offs = length pre\<rparr> =
     Inr (fr, \<lparr>pr_data = pre @ encode_u32s fr @ rest, pr_offs = length pre + 24\<rparr>)"
    by simp
  from v have "\<forall>vi \<in> set [fr ! 0, fr ! 2, fr ! 4]. vi < length (me_verts m)"
    by (simp add: face_corners_def)
  with g show ?thesis
    by (simp add: faces_step_def bindE_def Let_def face_corners_def)
qed

lemma faces_loop_at:
  assumes "list_all (wf_face_record (length (me_verts m))) frs"
  shows "repeatE (length frs) faces_step
           (\<lparr>pr_data = pre @ concat (map encode_u32s frs) @ rest, pr_offs = length pre\<rparr>, m) =
         Inr (\<lparr>pr_data = pre @ concat (map encode_u32s frs) @ rest,
               pr_offs = length pre + 24 * length frs\<rparr>,
              m\<lparr>me_bmfaces := build_faces (me_bmfaces m) frs\<rparr>)"
  using assms
proof (induction frs arbitrary: pre m)
  case Nil
  show ?case by simp
next
  case (Cons fr frs)
  let ?tl = "concat (map encode_u32s frs) @ rest"
  let ?m1 = "m\<lparr>me_bmfaces := me_bmfaces m @ [faces_new (me_bmfaces m) (face_corners fr)]\<rparr>"
  from Cons.prems have wf: "wf_face_record (length (me_verts m)) fr"
    and wfs: "list_all (wf_face_record (length (me_verts ?m1))) frs" by simp_all
  from wf have l: "length (encode_u32s fr) = 24" by (simp add: wf_face_record_def)
  have s: "faces_step (\<lparr>pr_data = pre @ encode_u32s fr @ ?tl, pr_offs = length pre\<rparr>, m) =
     Inr (\<lparr>pr_data = pre @ encode_u32s fr @ ?tl, pr_offs = length pre + 24\<rparr>, ?m1)"
    by (rule faces_step_at[OF wf])
  have ih: "repeatE (length frs) faces_step
           (\<lparr>pr_data = (pre @ encode_u32s fr) @ ?tl, pr_offs = length (pre @ encode_u32s fr)\<rparr>, ?m1) =
         Inr (\<lparr>pr_data = (pre @ encode_u32s fr) @ ?tl,
               pr_offs = length (pre @ encode_u32s fr) + 24 * length frs\<rparr>,
              ?m1\<lparr>me_bmfaces := build_faces (me_bmfaces ?m1) frs\<rparr>)"
    by (rule Cons.IH[OF wfs])
  from s ih l show ?case by (simp add: bindE_def)
qed

lemma length_build_faces: "length (build_faces fs frs) = length fs + length frs"
  by (induction frs arbitrary: fs) simp_all

lemma build_faces_prefix: "take (length fs) (build_faces fs frs) = fs"
proof (induction frs arbitrary: fs)
  case Nil
  show ?case by simp
next
  case (Cons fr frs)
  let ?fs1 = "fs @ [faces_new fs (face_corners fr)]"
  have "take (length fs) (build_faces ?fs1 frs) =
        take (length fs) (take (length ?fs1) (build_faces ?fs1 frs))"
    by (simp add: min_def)
  also have "\<dots> = take (length fs) ?fs1" by (simp only: Cons.IH)
  finally show ?case by simp
qed

lemma build_faces_nth:
  "i < length frs \<Longrightarrow>
   build_faces fs frs ! (length fs + i) =
     faces_new (take (length fs + i) (build_faces fs frs)) (face_corners (frs ! i))"
proof (induction frs arbitrary: fs i)
  case Nil
  then show ?case by simp
next
  case (Cons fr frs)
  let ?x = "faces_new fs (face_corners fr)"
  let ?fs1 = "fs @ [?x]"
  show ?case
  proof (cases i)
    case 0
    have p: "take (length ?fs1) (build_faces ?fs1 frs) = ?fs1" by (rule build_faces_prefix)
    have "build_faces ?fs1 frs ! length fs = take (length ?fs1) (build_faces ?fs1 frs) ! length fs"
      by simp
    also have "\<dots> = ?x" by (simp only: p) simp
    finally have a: "build_faces ?fs1 frs ! length fs = ?x" .
    have b: "take (length fs) (build_faces ?fs1 frs) = fs"
      using build_faces_prefix[of fs "fr # frs"] by simp
    from 0 a b show ?thesis by simp
  next
    case (Suc j)
    with Cons.prems have "j < length frs" by simp
    from Cons.IH[OF this, of ?fs1] Suc show ?thesis by simp
  qed
qed


lemma faces_chunk_at:
  assumes "list_all (wf_face_record (length (me_verts m))) frs" "length frs < 2 ^ 32"
  shows "faces_chunk (encode_faces frs) m = Inr (m\<lparr>me_bmfaces := build_faces (me_bmfaces m) frs\<rparr>)"
proof -
  have g: "getf_I \<lparr>pr_data = [] @ le_bytes 4 (length frs) @ concat (map encode_u32s frs),
                   pr_offs = length ([] :: buffer)\<rparr> =
      Inr (length frs, \<lparr>pr_data = [] @ le_bytes 4 (length frs) @ concat (map encode_u32s frs),
                        pr_offs = length ([] :: buffer) + 4\<rparr>)"
    by (rule getf_I_at[OF assms(2)])
  have l: "repeatE (length frs) faces_step
           (\<lparr>pr_data = le_bytes 4 (length frs) @ concat (map encode_u32s frs) @ [],
             pr_offs = length (le_bytes 4 (length frs))\<rparr>, m) =
         Inr (\<lparr>pr_data = le_bytes 4 (length frs) @ concat (map encode_u32s frs) @ [],
               pr_offs = length (le_bytes 4 (length frs)) + 24 * length frs\<rparr>,
              m\<lparr>me_bmfaces := build_faces (me_bmfaces m) frs\<rparr>)"
    by (rule faces_loop_at[OF assms(1)])
  from g l show ?thesis
    by (simp add: faces_chunk_def encode_faces_def PackedReader_def bindE_def)
qed

lemma null_slot_skipped:
  assumes "fi < length (me_bmfaces m')" "me_bmfaces m' ! fi = None"
  shows "sg_face (fi, sg) (edict, m') = Inr (edict, m')"
    and "sface_face midx fi m' = Inr m'"
    and "uv_discon_entry H n (tc, vi, fi) m' = Inr m'"
  using assms
  by (simp_all add: sg_face_def sface_face_def uv_discon_entry_def bmfaces_at_def bindE_def)

text \<open>
  C7. A well-formed face chunk (vertex indices in range) always decodes: each face
  record appends exactly one slot, so earlier slots keep their positions, and the slot
  is what the host's face construction returns on the slots before it, \<open>None\<close> when it
  rejects the face. Wherever a later chunk reaches a \<open>None\<close> slot by index, in the
  smoothing groups, the surface faces and the disconnected texture coordinates, the
  state is returned unchanged and nothing is raised.
\<close>

theorem rejected_faces_are_null_placeholders:
  assumes "list_all (wf_face_record (length (me_verts m))) frs" "length frs < 2 ^ 32"
  shows "faces_chunk (encode_faces frs) m =
           Inr (m\<lparr>me_bmfaces := build_faces (me_bmfaces m) frs\<rparr>) \<and>
         length (build_faces (me_bmfaces m) frs) = length (me_bmfaces m) + length frs \<and>
         take (length (me_bmfaces m)) (build_faces (me_bmfaces m) frs) = me_bmfaces m \<and>
         (\<forall>i < length frs.
            build_faces (me_bmfaces m) frs ! (length (me_bmfaces m) + i) =
              faces_new (take (length (me_bmfaces m) + i) (build_faces (me_bmfaces m) frs))
                (face_corners (frs ! i))) \<and>
         (\<forall>m' fi. fi < length (me_bmfaces m') \<and> me_bmfaces m' ! fi = None \<longrightarrow>
            sg_face (fi, sg) (edict, m') = Inr (edict, m') \<and>
            sface_face midx fi m' = Inr m' \<and>
            uv_discon_entry H n (tc, vi, fi) m' = Inr m')"
proof -
  have a: "faces_chunk (encode_faces frs) m =
           Inr (m\<lparr>me_bmfaces := build_faces (me_bmfaces m) frs\<rparr>)"
    by (rule faces_chunk_at[OF assms])
  have b: "length (build_faces (me_bmfaces m) frs) = length (me_bmfaces m) + length frs"
    by (rule length_build_faces)
  have c: "take (length (me_bmfaces m)) (build_faces (me_bmfaces m) frs) = me_bmfaces m"
    by (rule build_faces_prefix)
  have d: "\<forall>i < length frs.
            build_faces (me_bmfaces m) frs ! (length (me_bmfaces m) + i) =
              faces_new (take (length (me_bmfaces m) + i) (build_faces (me_bmfaces m) frs))
                (face_corners (frs ! i))"
    by (simp add: build_faces_nth)
  have e: "\<forall>m' fi. fi < length (me_bmfaces m') \<and> me_bmfaces m' ! fi = None \<longrightarrow>
            sg_face (fi, sg) (edict, m') = Inr (edict, m') \<and>
            sface_face midx fi m' = Inr m' \<and>
            uv_discon_entry H n (tc, vi, fi) m' = Inr m'"
    by (intro allI impI conjI; elim conjE) (rule null_slot_skipped; assumption)+
  show ?thesis by (intro conjI) (rule a, rule b, rule c, rule d, rule e)
qed

lemma example_build:
  "build_faces [] example_face_records =
     [Some \<lparr>face_verts = [0, 1, 2], face_smooth = False, face_material_index = 0\<rparr>, None, None]"
  by (simp add: example_face_records_def face_corners_def faces_new_def insert_commute)

theorem rejected_faces_are_null_placeholders_witness:
  "faces_chunk (encode_faces example_face_records) example_verts_mesh = Inr example_faces_mesh \<and>
   sg_face (1, 7) (Map.empty, example_faces_mesh) = Inr (Map.empty, example_faces_mesh) \<and>
   sface_face 0 2 example_faces_mesh = Inr example_faces_mesh \<and>
   uv_discon_entry example_host ''uv'' ((0, 0), 0, 1) example_faces_mesh = Inr example_faces_mesh"
proof -
  have h: "list_all (wf_face_record (length (me_verts example_verts_mesh))) example_face_records"
    "length example_face_records < 2 ^ 32"
    by (simp_all add: example_face_records_def example_verts_mesh_def wf_face_record_def
        face_corners_def)
  have b: "example_verts_mesh\<lparr>me_bmfaces :=
             build_faces (me_bmfaces example_verts_mesh) example_face_records\<rparr> =
           example_faces_mesh"
    by (simp add: example_faces_mesh_def example_build example_verts_mesh_def new_mesh_def)
  have n: "1 < length (me_bmfaces example_faces_mesh) \<and> me_bmfaces example_faces_mesh ! 1 = None"
    "2 < length (me_bmfaces example_faces_mesh) \<and> me_bmfaces example_faces_mesh ! 2 = None"
    by (simp_all add: example_faces_mesh_def)
  from rejected_faces_are_null_placeholders[OF h, of 7 Map.empty 0 example_host "''uv''" "(0, 0)" 0]
  have f: "faces_chunk (encode_faces example_face_records) example_verts_mesh =
        Inr example_faces_mesh"
    and s: "\<forall>m' fi. fi < length (me_bmfaces m') \<and> me_bmfaces m' ! fi = None \<longrightarrow>
            sg_face (fi, 7) (Map.empty, m') = Inr (Map.empty, m') \<and>
            sface_face 0 fi m' = Inr m' \<and>
            uv_discon_entry example_host ''uv'' ((0, 0), 0, fi) m' = Inr m'"
    unfolding b by blast+
  from s[rule_format, OF n(1)] s[rule_format, OF n(2)] f show ?thesis by blast
qed


subsection \<open>Disconnected weight maps\<close>

lemma vmap_weights_discon:
  "vmap_weights n True sz (pr, m) =
     (if pr_offs pr + 12 * sz \<le> length (pr_data pr)
      then Inr (pr\<lparr>pr_offs := pr_offs pr + 12 * sz\<rparr>,
                m\<lparr>me_vertex_groups := me_vertex_groups m @ [n]\<rparr>)
      else Inl TruncatedData)"
proof (cases "pr_offs pr + 4 * sz \<le> length (pr_data pr)")
  case False
  then show ?thesis
    by (simp add: vmap_weights_def getf_nf_def getf_n_short bindE_def Let_def)
next
  case a: True
  from getf_n_enough[OF a] obtain ws where
    g1: "getf_n 4 sz pr = Inr (ws, pr\<lparr>pr_offs := pr_offs pr + 4 * sz\<rparr>)" by blast
  let ?pr1 = "pr\<lparr>pr_offs := pr_offs pr + 4 * sz\<rparr>"
  show ?thesis
  proof (cases "pr_offs ?pr1 + 4 * sz \<le> length (pr_data ?pr1)")
    case False
    with g1 show ?thesis
      by (simp add: vmap_weights_def getf_nf_def getf_nI_def getf_n_short bindE_def Let_def)
  next
    case b: True
    from getf_n_enough[OF b] obtain vs where
      g2: "getf_n 4 sz ?pr1 = Inr (vs, ?pr1\<lparr>pr_offs := pr_offs ?pr1 + 4 * sz\<rparr>)" by blast
    let ?pr2 = "?pr1\<lparr>pr_offs := pr_offs ?pr1 + 4 * sz\<rparr>"
    show ?thesis
    proof (cases "pr_offs ?pr2 + 4 * sz \<le> length (pr_data ?pr2)")
      case False
      with g1 g2 show ?thesis
        by (simp add: vmap_weights_def getf_nf_def getf_nI_def getf_n_short bindE_def Let_def)
    next
      case c: True
      from getf_n_enough[OF c] obtain fs where
        g3: "getf_n 4 sz ?pr2 = Inr (fs, ?pr2\<lparr>pr_offs := pr_offs ?pr2 + 4 * sz\<rparr>)" by blast
      from c g1 g2 g3 show ?thesis
        by (simp add: vmap_weights_def getf_nf_def getf_nI_def bindE_def Let_def)
    qed
  qed
qed

text \<open>
  C9. A vertex map of type 1 whose disconnected flag is set creates its vertex group and
  reads its three arrays (weights, vertices, face corners): with the \<open>12 * sz\<close> bytes
  present the entry decodes, the cursor passes the arrays and no weight is assigned
  (\<open>me_deform\<close> is unchanged); with fewer bytes the read is truncated.
\<close>

theorem disconnected_weights_are_not_applied:
  assumes "CHR 0x00 \<notin> set n" and "sz < 2 ^ 32" and "(of_char d :: nat) \<noteq> 0"
    and "(of_char t :: nat) AND 0x3 = 1"
  shows "vmap_step H
           (\<lparr>pr_data = pre @ n @ CHR 0x00 # dm # d # t # le_bytes 4 sz @ payload,
             pr_offs = length pre\<rparr>, m) =
         (if 12 * sz \<le> length payload
          then Inr (\<lparr>pr_data = pre @ n @ CHR 0x00 # dm # d # t # le_bytes 4 sz @ payload,
                     pr_offs = length pre + length n + 8 + 12 * sz\<rparr>,
                    m\<lparr>me_vertex_groups := me_vertex_groups m @ [n]\<rparr>)
          else Inl TruncatedData) \<and>
         me_deform (m\<lparr>me_vertex_groups := me_vertex_groups m @ [n]\<rparr>) = me_deform m"
proof -
  let ?D = "pre @ n @ CHR 0x00 # dm # d # t # le_bytes 4 sz @ payload"
  let ?p1 = "pre @ n @ [CHR 0x00]"
  let ?p2 = "?p1 @ [dm]"
  let ?p3 = "?p2 @ [d]"
  let ?p4 = "?p3 @ [t]"
  have g0: "gets \<lparr>pr_data = ?D, pr_offs = length pre\<rparr> =
      Inr (n, \<lparr>pr_data = ?D, pr_offs = length ?p1\<rparr>)"
    using gets_at[OF assms(1), of pre "dm # d # t # le_bytes 4 sz @ payload"] by simp
  have g1: "getf_B \<lparr>pr_data = ?D, pr_offs = length ?p1\<rparr> =
      Inr (of_char dm, \<lparr>pr_data = ?D, pr_offs = length ?p2\<rparr>)"
    using getf_B_at[of ?p1 dm "d # t # le_bytes 4 sz @ payload"] by simp
  have g2: "getf_B \<lparr>pr_data = ?D, pr_offs = length ?p2\<rparr> =
      Inr (of_char d, \<lparr>pr_data = ?D, pr_offs = length ?p3\<rparr>)"
    using getf_B_at[of ?p2 d "t # le_bytes 4 sz @ payload"] by simp
  have g3: "getf_B \<lparr>pr_data = ?D, pr_offs = length ?p3\<rparr> =
      Inr (of_char t, \<lparr>pr_data = ?D, pr_offs = length ?p4\<rparr>)"
    using getf_B_at[of ?p3 t "le_bytes 4 sz @ payload"] by simp
  have g4: "getf_I \<lparr>pr_data = ?D, pr_offs = length ?p4\<rparr> =
      Inr (sz, \<lparr>pr_data = ?D, pr_offs = length ?p4 + 4\<rparr>)"
    using getf_I_at[OF assms(2), of ?p4 payload] by simp
  have st: "vmap_step H (\<lparr>pr_data = ?D, pr_offs = length pre\<rparr>, m) =
      vmap_weights n True sz (\<lparr>pr_data = ?D, pr_offs = length ?p4 + 4\<rparr>, m)"
    using g0 g1 g2 g3 g4 assms(3,4)
    by (simp add: vmap_step_def bindE_def Let_def del: length_append)
  show ?thesis unfolding st vmap_weights_discon by simp
qed


theorem disconnected_weights_are_not_applied_witness:
  "vmap_step example_host (\<lparr>pr_data = example_weight_vmap, pr_offs = 0\<rparr>, new_mesh) =
     Inr (\<lparr>pr_data = example_weight_vmap, pr_offs = 24\<rparr>,
          new_mesh\<lparr>me_vertex_groups := [''bone'']\<rparr>)"
proof -
  have h: "CHR 0x00 \<notin> set ''bone''" "(1 :: nat) < 2 ^ 32" "(of_char (CHR 0x01) :: nat) \<noteq> 0"
    "(of_char (CHR 0x01) :: nat) AND 0x3 = 1"
    by simp_all
  from disconnected_weights_are_not_applied[OF h, of example_host "[]" "CHR 0x01"
      "le_bytes 4 0x3F800000 @ le_bytes 4 0 @ le_bytes 4 0" new_mesh]
  show ?thesis by (simp add: example_weight_vmap_def new_mesh_def)
qed


subsection \<open>The image cache of an import context\<close>














end
